theory Spec2Isabelle
  imports Main
begin

text \<open>
  A model of the simulation and batching pipeline of the Pilot extension: the message
  bridge between the extension page and the Ganache iframe, the Tenderly fork provider,
  the encoding of the recorded transactions into one batch, the re-run of the recording
  on a new fork, and the migration of stored connections. Every definition follows a
  function of the TypeScript sources; calls into libraries and into modules that are
  not part of the modelled sources are parameters.
\<close>

section \<open>JavaScript values\<close>

text \<open>
  JSON payloads that the code only passes on are strings. An optional string is truthy
  when it is present and not empty; an optional number is truthy when it is present and
  not zero (\<open>undefined\<close>, \<open>''\<close> and \<open>0\<close> are falsy). Counters and block numbers are
  JavaScript numbers, which are exact integers below \<open>2^53\<close>; they are natural numbers
  here.
\<close>

type_synonym json = string

definition truthy_string :: "string option \<Rightarrow> bool" where
  "truthy_string v = (case v of None \<Rightarrow> False | Some s \<Rightarrow> s \<noteq> [])"

definition truthy_number :: "nat option \<Rightarrow> bool" where
  "truthy_number v = (case v of None \<Rightarrow> False | Some n \<Rightarrow> n \<noteq> 0)"

text \<open>\<open>a || b\<close> is \<open>a\<close> when \<open>a\<close> is truthy and \<open>b\<close> otherwise.\<close>

definition js_or :: "string option \<Rightarrow> string option \<Rightarrow> string option" where
  "js_or a b = (if truthy_string a then a else b)"

text \<open>\<open>Number.prototype.toString(16)\<close> on a non-negative integer.\<close>

fun toString16 :: "nat \<Rightarrow> string" where
  "toString16 n =
     (if n < 16 then [''0123456789abcdef'' ! n]
      else toString16 (n div 16) @ [''0123456789abcdef'' ! (n mod 16)])"

declare toString16.simps [simp del]

section \<open>The message bridge\<close>

subsection \<open>Envelopes and message events\<close>

text \<open>
  All bridge traffic travels as the \<open>data\<close> of \<open>message\<close> events posted with
  \<open>postMessage(..., '*')\<close>. The receivers destructure \<open>ev.data\<close> and test the tag
  fields for truthiness; a field that is absent reads as \<open>undefined\<close>. The five tags,
  the message id and the three payload fields are the fields any of the listeners reads.
  \<open>error\<close> is \<open>None\<close> when the field is absent or falsy.
\<close>

record JsonRpcRequest =
  rpc_method :: string
  rpc_params :: "string list option"

record data =
  zodiacPilotGanacheInit :: bool
  zodiacPilotRequestFromGanache :: bool
  zodiacPilotResponseToGanache :: bool
  zodiacPilotGanacheRequest :: bool
  zodiacPilotGanacheResponse :: bool
  messageId :: "nat option"
  request :: "JsonRpcRequest option"
  response :: "json option"
  error :: "json option"

definition no_data :: data where
  "no_data = \<lparr>zodiacPilotGanacheInit = False, zodiacPilotRequestFromGanache = False,
     zodiacPilotResponseToGanache = False, zodiacPilotGanacheRequest = False,
     zodiacPilotGanacheResponse = False, messageId = None, request = None,
     response = None, error = None\<rparr>"

text \<open>
  \<open>MessageEvent.source\<close> is \<open>null\<close>, a window, a message port or a service worker.
  Windows (browsing contexts) are identified by numbers.
\<close>

type_synonym window = nat

datatype source = NoSource | WindowSource window | PortSource nat | WorkerSource nat

record MessageEvent =
  ev_data :: data
  ev_source :: source

subsection \<open>The calling side: \<open>GanacheProvider\<close> and \<open>Eip1193Provider\<close>\<close>

text \<open>
  Two classes implement the calling side of a bridge with the same code, up to the names
  of the tags. \<open>GanacheProvider\<close> runs in the extension page and calls into the Ganache
  iframe; \<open>Eip1193Provider\<close> runs in the iframe and calls the wallet provider of the
  extension page (\<open>window.top\<close>):
  \<^verbatim>\<open>
  request(request: JsonRpcRequest): Promise<any> {
    const currentMessageId = this.messageId
    this.messageId++
    return new Promise((resolve, reject) => {
      this.ganacheWindow.postMessage(
        { zodiacPilotGanacheRequest: true, request, messageId: currentMessageId }, '*')
      const handleMessage = (ev: MessageEvent) => {
        const { zodiacPilotGanacheResponse, messageId, error, response } = ev.data
        if (zodiacPilotGanacheResponse && messageId === currentMessageId) {
          window.removeEventListener('message', handleMessage)
          if (error) { reject(error) } else { resolve(response) }
        }
      }
      window.addEventListener('message', handleMessage)
    })
  }
  \<close>
  The state of a provider object and of what it has registered: the counter, the peer
  window (\<open>ganacheWindow\<close>, or \<open>window.top\<close>, which is \<open>null\<close> once the frame is
  detached), the envelopes posted to the peer, the \<open>handleMessage\<close> closures registered
  on \<open>window\<close> in registration order, and the promises returned so far. A promise is
  named by its position in the list of promises, a closure by the promise it settles and
  the \<open>currentMessageId\<close> it has captured.
\<close>

datatype bridge = GanacheProvider | Eip1193Provider

datatype settled = Resolved "json option" | Rejected json

record provider =
  this_messageId :: nat
  peer :: "window option"
  outbox :: "data list"
  listeners :: "(nat \<times> nat) list"
  promises :: "settled option list"

definition init_data :: data where
  "init_data = no_data\<lparr>zodiacPilotGanacheInit := True\<rparr>"

text \<open>
  The constructors. \<open>new GanacheProvider(ganacheWindow)\<close> only stores the window. The
  constructor of \<open>Eip1193Provider\<close> throws when \<open>window.top\<close> is \<open>null\<close> and otherwise
  posts the init envelope to it; \<open>w\<close> is that window.
\<close>

definition new_provider :: "bridge \<Rightarrow> window \<Rightarrow> provider" where
  "new_provider b w =
     \<lparr>this_messageId = 0, peer = Some w,
      outbox = (case b of GanacheProvider \<Rightarrow> [] | Eip1193Provider \<Rightarrow> [init_data]),
      listeners = [], promises = []\<rparr>"

definition request_data :: "bridge \<Rightarrow> nat \<Rightarrow> JsonRpcRequest \<Rightarrow> data" where
  "request_data b currentMessageId req =
     (case b of
        GanacheProvider \<Rightarrow>
          no_data\<lparr>zodiacPilotGanacheRequest := True, request := Some req,
                  messageId := Some currentMessageId\<rparr>
      | Eip1193Provider \<Rightarrow>
          no_data\<lparr>zodiacPilotRequestFromGanache := True, request := Some req,
                  messageId := Some currentMessageId\<rparr>)"

definition response_tag :: "bridge \<Rightarrow> data \<Rightarrow> bool" where
  "response_tag b d =
     (case b of GanacheProvider \<Rightarrow> zodiacPilotGanacheResponse d
              | Eip1193Provider \<Rightarrow> zodiacPilotResponseToGanache d)"

text \<open>
  \<open>request\<close> returns the promise and the new state. The counter is advanced before the
  promise is built. In \<open>Eip1193Provider\<close> the executor first tests \<open>window.top\<close> and
  throws \<open>'Must run inside iframe'\<close>, which rejects the promise before anything is
  posted or registered.
\<close>

definition bridge_request :: "bridge \<Rightarrow> JsonRpcRequest \<Rightarrow> provider \<Rightarrow> nat \<times> provider" where
  "bridge_request b req s =
     (let currentMessageId = this_messageId s;
          p = length (promises s);
          s1 = s\<lparr>this_messageId := currentMessageId + 1\<rparr>
      in if b = Eip1193Provider \<and> peer s1 = None
         then (p, s1\<lparr>promises := promises s1 @ [Some (Rejected ''Must run inside iframe'')]\<rparr>)
         else (p, s1\<lparr>outbox := outbox s1 @ [request_data b currentMessageId req],
                     listeners := listeners s1 @ [(p, currentMessageId)],
                     promises := promises s1 @ [None]\<rparr>))"

text \<open>Settling a promise that is already settled has no effect.\<close>

definition settle :: "nat \<Rightarrow> settled \<Rightarrow> settled option list \<Rightarrow> settled option list" where
  "settle p v ps = (if p < length ps \<and> ps ! p = None then ps[p := Some v] else ps)"

definition outcome :: "data \<Rightarrow> settled" where
  "outcome d = (case error d of Some e \<Rightarrow> Rejected e | None \<Rightarrow> Resolved (response d))"

text \<open>
  One \<open>handleMessage\<close> closure run on one event. It reads \<open>ev.data\<close> only; the
  \<open>source\<close> of the event is not looked at.
\<close>

definition handleMessage :: "bridge \<Rightarrow> nat \<times> nat \<Rightarrow> MessageEvent \<Rightarrow> provider \<Rightarrow> provider" where
  "handleMessage b l ev s =
     (case l of (p, currentMessageId) \<Rightarrow>
        if response_tag b (ev_data ev) \<and> messageId (ev_data ev) = Some currentMessageId
        then s\<lparr>listeners := remove1 l (listeners s),
               promises := settle p (outcome (ev_data ev)) (promises s)\<rparr>
        else s)"

text \<open>
  The window runs the closures registered when the event is dispatched, in registration
  order. (A closure removes no closure but itself, so each of them is still registered
  when its turn comes.)
\<close>

definition dispatchEvent :: "bridge \<Rightarrow> MessageEvent \<Rightarrow> provider \<Rightarrow> provider" where
  "dispatchEvent b ev s = foldl (\<lambda>s' l. handleMessage b l ev s') s (listeners s)"

text \<open>Several requests issued one after the other, and several events in their order of arrival.\<close>

definition bridge_requests :: "bridge \<Rightarrow> JsonRpcRequest list \<Rightarrow> provider \<Rightarrow> provider" where
  "bridge_requests b reqs s = foldl (\<lambda>s' req. snd (bridge_request b req s')) s reqs"

definition dispatchEvents :: "bridge \<Rightarrow> MessageEvent list \<Rightarrow> provider \<Rightarrow> provider" where
  "dispatchEvents b evs s = foldl (\<lambda>s' ev. dispatchEvent b ev s') s evs"

text \<open>
  An event answers the request with message id \<open>k\<close> when it carries the response tag
  of the bridge and that id; the answer to request \<open>k\<close> among the events that arrive
  is the first such event. \<open>issued\<close> is the state of a new provider after the given
  requests, \<open>delivered\<close> the state after the given events have arrived as well.
\<close>

definition matches :: "bridge \<Rightarrow> MessageEvent \<Rightarrow> nat \<Rightarrow> bool" where
  "matches b ev k = (response_tag b (ev_data ev) \<and> messageId (ev_data ev) = Some k)"

definition answers :: "bridge \<Rightarrow> MessageEvent list \<Rightarrow> nat \<Rightarrow> MessageEvent option" where
  "answers b evs k = find (\<lambda>ev. matches b ev k) evs"

definition issued :: "bridge \<Rightarrow> window \<Rightarrow> JsonRpcRequest list \<Rightarrow> provider" where
  "issued b w reqs =
     \<lparr>this_messageId = length reqs, peer = Some w,
      outbox = outbox (new_provider b w)
               @ map (\<lambda>(i, req). request_data b i req) (enumerate 0 reqs),
      listeners = map (\<lambda>k. (k, k)) [0..<length reqs],
      promises = replicate (length reqs) None\<rparr>"

definition delivered :: "bridge \<Rightarrow> window \<Rightarrow> JsonRpcRequest list \<Rightarrow> MessageEvent list \<Rightarrow> provider" where
  "delivered b w reqs evs =
     (issued b w reqs)
       \<lparr>listeners := map (\<lambda>k. (k, k)) (filter (\<lambda>k. answers b evs k = None) [0..<length reqs]),
        promises := map (\<lambda>k. map_option (\<lambda>ev. outcome (ev_data ev)) (answers b evs k))
                      [0..<length reqs]\<rparr>"

subsection \<open>The serving side in the extension page: \<open>GanacheBridgeHost\<close>\<close>

text \<open>
  \<^verbatim>\<open>
  initBridge(event) {
    if (!event.source) throw new Error('Unable to get message source')
    if (event.source instanceof MessagePort || event.source instanceof ServiceWorker)
      throw new Error('Expected message to originate from window')
    this.source = event.source
    this.emit('ready')
  }
  private async handleRequest(request, messageId) {
    if (!this.source) throw new Error('source must be set')
    let response, error
    try { response = await this.provider.request(request) } catch (e) { error = e }
    this.source.postMessage(
      { zodiacPilotResponseToGanache: true, messageId, response, error }, '*')
  }
  handleMessage(ev) {
    const { zodiacPilotGanacheInit, zodiacPilotRequestFromGanache, messageId, request } = ev.data
    if (zodiacPilotGanacheInit) { this.initBridge(ev); return }
    if (zodiacPilotRequestFromGanache) {
      this.assertConsistentSource(ev)
      this.handleRequest(request, messageId)
    }
  }
  private assertConsistentSource(event) {
    if (event.source !== this.source) throw new Error('unexpected message source')
  }
  \<close>
  The state of the host: the recorded source (\<open>None\<close> is \<open>undefined\<close>), the number of
  \<open>ready\<close> events emitted, the calls made to the target provider (request and message
  id, oldest first), and the envelopes posted, each with the window it was posted to.
  A \<open>throw\<close> is the result \<open>Inl\<close>; no method changes the state before it throws.
\<close>

datatype host_error =
    UnableToGetMessageSource
  | ExpectedMessageFromWindow
  | UnexpectedMessageSource
  | SourceMustBeSet

record host =
  this_source :: "window option"
  ready :: nat
  provider_calls :: "(JsonRpcRequest option \<times> nat option) list"
  host_outbox :: "(window \<times> data) list"

definition new_host :: host where
  "new_host = \<lparr>this_source = None, ready = 0, provider_calls = [], host_outbox = []\<rparr>"

definition initBridge :: "host \<Rightarrow> MessageEvent \<Rightarrow> host_error + host" where
  "initBridge h event =
     (case ev_source event of
        NoSource \<Rightarrow> Inl UnableToGetMessageSource
      | PortSource _ \<Rightarrow> Inl ExpectedMessageFromWindow
      | WorkerSource _ \<Rightarrow> Inl ExpectedMessageFromWindow
      | WindowSource w \<Rightarrow> Inr (h\<lparr>this_source := Some w, ready := ready h + 1\<rparr>))"

text \<open>
  \<open>event.source !== this.source\<close>: the two are the same only when the event comes from
  the very window that was recorded. \<open>null\<close> is not \<open>undefined\<close>, and a port or a worker
  is never the recorded window.
\<close>

definition assertConsistentSource :: "host \<Rightarrow> MessageEvent \<Rightarrow> host_error + unit" where
  "assertConsistentSource h event =
     (case (ev_source event, this_source h) of
        (WindowSource w, Some w') \<Rightarrow> if w = w' then Inr () else Inl UnexpectedMessageSource
      | _ \<Rightarrow> Inl UnexpectedMessageSource)"

text \<open>
  \<open>handleRequest\<close> is asynchronous. Up to its \<open>await\<close> it runs inside \<open>handleMessage\<close>:
  it checks the source and calls the target provider. It resumes when the provider has
  answered (\<open>Inl\<close> a rejection, \<open>Inr\<close> a result) and posts the response to the source
  recorded at that moment. The source is never unset, so it is present on resumption.
\<close>

definition handleRequest_call :: "host \<Rightarrow> JsonRpcRequest option \<Rightarrow> nat option \<Rightarrow> host_error + host" where
  "handleRequest_call h req mid =
     (if this_source h = None then Inl SourceMustBeSet
      else Inr (h\<lparr>provider_calls := provider_calls h @ [(req, mid)]\<rparr>))"

definition handleRequest_resume :: "host \<Rightarrow> nat option \<Rightarrow> json + json option \<Rightarrow> host" where
  "handleRequest_resume h mid answer =
     (case this_source h of
        None \<Rightarrow> h
      | Some w \<Rightarrow>
          h\<lparr>host_outbox := host_outbox h @
              [(w, no_data\<lparr>zodiacPilotResponseToGanache := True, messageId := mid,
                    response := (case answer of Inl e \<Rightarrow> None | Inr r \<Rightarrow> r),
                    error := (case answer of Inl e \<Rightarrow> Some e | Inr r \<Rightarrow> None)\<rparr>)]\<rparr>)"

text \<open>
  \<open>handleMessage\<close> does not await \<open>handleRequest\<close>: an error raised there rejects a
  promise nobody holds and is not thrown to the caller.
\<close>

definition host_handleMessage :: "host \<Rightarrow> MessageEvent \<Rightarrow> host_error + host" where
  "host_handleMessage h ev =
     (if zodiacPilotGanacheInit (ev_data ev) then initBridge h ev
      else if zodiacPilotRequestFromGanache (ev_data ev) then
        (case assertConsistentSource h ev of
           Inl e \<Rightarrow> Inl e
         | Inr _ \<Rightarrow>
             (case handleRequest_call h (request (ev_data ev)) (messageId (ev_data ev)) of
                Inl _ \<Rightarrow> Inr h
              | Inr h' \<Rightarrow> Inr h'))
      else Inr h)"

text \<open>An event comes from the recorded source when the host has recorded a window and the
  event's source is that window.\<close>

definition from_recorded_source :: "host \<Rightarrow> MessageEvent \<Rightarrow> bool" where
  "from_recorded_source h ev =
     (case this_source h of None \<Rightarrow> False | Some w \<Rightarrow> ev_source ev = WindowSource w)"

subsection \<open>The serving side in the iframe: the listener of \<open>setupFork\<close>\<close>

text \<open>
  \<^verbatim>\<open>
  window.addEventListener('message', async (ev: MessageEvent) => {
    const { zodiacPilotGanacheRequest, messageId, request } = ev.data
    if (zodiacPilotGanacheRequest) {
      if (!window.top) throw new Error('Must run inside iframe')
      const response = await provider.request(request)
      window.top.postMessage(
        { zodiacPilotGanacheResponse: true, messageId, response }, '*')
    }
  })
  \<close>
  \<open>provider\<close> is the Ganache simulator, a parameter: \<open>Inl\<close> when its promise rejects.
  The listener has no \<open>catch\<close>: when the simulator rejects (or \<open>window.top\<close> is
  \<open>null\<close>), the listener's own promise rejects and nothing is posted. The result is the
  list of envelopes the listener posts to \<open>window.top\<close> for one event.
\<close>

definition setupFork_listener ::
  "bool \<Rightarrow> (JsonRpcRequest option \<Rightarrow> json + json) \<Rightarrow> MessageEvent \<Rightarrow> data list" where
  "setupFork_listener window_top ganache ev =
     (if zodiacPilotGanacheRequest (ev_data ev) then
        (if \<not> window_top then []
         else (case ganache (request (ev_data ev)) of
                 Inl e \<Rightarrow> []
               | Inr result \<Rightarrow>
                   [no_data\<lparr>zodiacPilotGanacheResponse := True,
                            messageId := messageId (ev_data ev),
                            response := Some result\<rparr>]))
      else [])"

text \<open>
  The response envelope for message id \<open>i\<close> and result \<open>r\<close>, and all envelopes the
  listener posts when the given request envelopes reach the iframe from the window
  \<open>page\<close> of the extension.
\<close>

definition result_data :: "nat \<Rightarrow> json \<Rightarrow> data" where
  "result_data i r =
     no_data\<lparr>zodiacPilotGanacheResponse := True, messageId := Some i, response := Some r\<rparr>"

definition sandbox_replies ::
  "(JsonRpcRequest option \<Rightarrow> json + json) \<Rightarrow> window \<Rightarrow> data list \<Rightarrow> data list" where
  "sandbox_replies ganache page ds =
     concat (map (\<lambda>d. setupFork_listener True ganache \<lparr>ev_data = d, ev_source = WindowSource page\<rparr>) ds)"

section \<open>The remote fork backend: \<open>TenderlyProvider\<close>\<close>

text \<open>
  The provider talks to three parties: the live wallet provider (\<open>this.provider\<close>), the
  fork API (creating a fork, reading its head) and the JSON-RPC endpoint of a fork.
  Their answers are parameters of the model. Each answer may depend on the moment of the
  call, which is the number of upstream calls made before it; every upstream call is
  appended to a log.
\<close>

datatype upstream_call =
    Live JsonRpcRequest
  | CreateFork nat
  | ForkSend string string "string list"
  | ForkInfo string

text \<open>
  An error thrown by the fork's JSON-RPC endpoint. The provider reads \<open>e.error?.code\<close>:
  \<open>error_code\<close> is that number, \<open>None\<close> when the error has no such field.
\<close>

record upstream_error =
  error_code :: "int option"
  error_text :: string

record upstream =
  live_request :: "nat \<Rightarrow> JsonRpcRequest \<Rightarrow> json + json"
  api_createFork :: "nat \<Rightarrow> nat \<Rightarrow> json + string \<times> nat"
  fork_send :: "nat \<Rightarrow> string \<Rightarrow> string \<Rightarrow> string list \<Rightarrow> upstream_error + json"
  api_forkInfo :: "nat \<Rightarrow> string \<Rightarrow> json + string \<times> nat"

text \<open>
  The fields of the object. \<open>forkProviderPromise\<close> is \<open>undefined\<close> or a promise; calls
  run one at a time here, so a promise is settled when it is read: \<open>Inl\<close> rejected,
  \<open>Inr\<close> resolved with the JSON-RPC provider of the fork of that id. \<open>timers\<close> are the
  callbacks scheduled with \<open>window.setTimeout\<close> that have not run yet, each with the
  fork provider it has captured.
\<close>

record tenderly =
  this_chainId :: nat
  this_forkProviderPromise :: "(json + string) option"
  this_forkId :: "string option"
  this_transactionIds :: "string \<rightharpoonup> string"
  this_blockNumber :: "nat option"
  timers :: "string list"
  calls :: "upstream_call list"

definition new_tenderly :: "nat \<Rightarrow> tenderly" where
  "new_tenderly chain =
     \<lparr>this_chainId = chain, this_forkProviderPromise = None, this_forkId = None,
      this_transactionIds = Map.empty, this_blockNumber = None, timers = [], calls = []\<rparr>"

datatype request_error =
    TenderlyRequestError
  | ForkRpcError upstream_error
  | LiveProviderError json
  | ForkCreationError json
  | NoTenderlyFork
  | ForkInfoError json

datatype rpc_result = Str string | Num nat

text \<open>
  \<^verbatim>\<open>
  private async createFork(networkId, blockNumber?) {
    const res = await fetch(this.tenderlyForkApi, { method: 'POST', body: ... })
    const json = await res.json()
    this.forkId = json.simulation_fork.id
    this.blockNumber = json.simulation_fork.block_number
    this.transactionIds.clear()
    return new JsonRpcProvider(`https://rpc.tenderly.co/fork/${this.forkId}`)
  }
  \<close>
  The caller stores the returned promise in \<open>forkProviderPromise\<close>; the model does both.
\<close>

definition createFork :: "upstream \<Rightarrow> tenderly \<Rightarrow> nat \<Rightarrow> tenderly" where
  "createFork up s networkId =
     (let s1 = s\<lparr>calls := calls s @ [CreateFork networkId]\<rparr>
      in case api_createFork up (length (calls s)) networkId of
           Inl e \<Rightarrow> s1\<lparr>this_forkProviderPromise := Some (Inl e)\<rparr>
         | Inr (fork, block_number) \<Rightarrow>
             s1\<lparr>this_forkId := Some fork, this_blockNumber := Some block_number,
                this_transactionIds := Map.empty,
                this_forkProviderPromise := Some (Inr fork)\<rparr>)"

text \<open>
  \<^verbatim>\<open>
  private async fetchForkInfo() {
    await this.forkProviderPromise
    if (!this.forkId) throw new Error('No Tenderly fork available')
    const res = await fetch(`${this.tenderlyForkApi}/${this.forkId}`)
    const json = await res.json()
    return json.simulation_fork
  }
  \<close>
\<close>

definition fetchForkInfo :: "upstream \<Rightarrow> tenderly \<Rightarrow> (request_error + string \<times> nat) \<times> tenderly" where
  "fetchForkInfo up s =
     (case this_forkProviderPromise s of
        Some (Inl e) \<Rightarrow> (Inl (ForkCreationError e), s)
      | _ \<Rightarrow>
          (case this_forkId s of
             None \<Rightarrow> (Inl NoTenderlyFork, s)
           | Some fork \<Rightarrow>
               if fork = [] then (Inl NoTenderlyFork, s)
               else (case api_forkInfo up (length (calls s)) fork of
                       Inl e \<Rightarrow> (Inl (ForkInfoError e), s\<lparr>calls := calls s @ [ForkInfo fork]\<rparr>)
                     | Inr info \<Rightarrow> (Inr info, s\<lparr>calls := calls s @ [ForkInfo fork]\<rparr>))))"

definition forking_method :: "string \<Rightarrow> bool" where
  "forking_method m =
     (m = ''eth_sendTransaction'' \<or> m = ''evm_snapshot'' \<or> m = ''evm_revert'')"

text \<open>
  \<^verbatim>\<open>
  async request(request: JsonRpcRequest): Promise<any> {
    if (request.method === 'eth_chainId') {
      return `0x${this.chainId.toString(16)}`
    }
    if (request.method === 'eth_blockNumber' && this.blockNumber) {
      return this.blockNumber
    }
    if (!this.forkProviderPromise &&
        (request.method === 'eth_sendTransaction' ||
         request.method === 'evm_snapshot' || request.method === 'evm_revert')) {
      this.forkProviderPromise = this.createFork(this.chainId)
    } else if (!this.forkProviderPromise) {
      return await this.provider.request(request)
    }
    const provider = await this.forkProviderPromise
    let result
    try {
      result = await provider.send(request.method, request.params || [])
    } catch (e) {
      if ((e as any).error?.code === -32603) {
        throw new Error('Error sending request to Tenderly')
      } else {
        throw e
      }
    }
    if (request.method === 'eth_sendTransaction') {
      const { global_head: headTransactionId, block_number } = await this.fetchForkInfo()
      this.blockNumber = block_number
      this.transactionIds.set(result, headTransactionId)
      window.setTimeout(async () => {
        await provider.send('evm_increaseBlocks', ['0x2'])
        if (this.blockNumber) this.blockNumber += 2
      }, 1)
    }
    return result
  }
  \<close>
  The function is modelled in two parts: \<open>forward\<close> is the part from \<open>provider.send\<close>
  on, for the fork provider that the awaited promise gave (the promise is set whenever
  it is awaited, so the case of an unset promise there is never taken). A call runs to its end before
  the next one starts; the callback handed to \<open>setTimeout\<close> is not run by the call,
  it is added to \<open>timers\<close> and runs later as \<open>run_timer\<close>.
\<close>

text \<open>\<open>request.params || []\<close>\<close>

definition params_of :: "JsonRpcRequest \<Rightarrow> string list" where
  "params_of req = (case rpc_params req of None \<Rightarrow> [] | Some ps \<Rightarrow> ps)"

definition forward ::
  "upstream \<Rightarrow> tenderly \<Rightarrow> string \<Rightarrow> JsonRpcRequest \<Rightarrow> (request_error + rpc_result) \<times> tenderly" where
  "forward up s fork req =
     (let ps = params_of req;
          s2 = s\<lparr>calls := calls s @ [ForkSend fork (rpc_method req) ps]\<rparr>
      in case fork_send up (length (calls s)) fork (rpc_method req) ps of
           Inl e \<Rightarrow>
             if error_code e = Some (- 32603) then (Inl TenderlyRequestError, s2)
             else (Inl (ForkRpcError e), s2)
         | Inr result \<Rightarrow>
             if rpc_method req = ''eth_sendTransaction'' then
               (case fetchForkInfo up s2 of
                  (Inl e, s3) \<Rightarrow> (Inl e, s3)
                | (Inr (headTransactionId, block_number), s3) \<Rightarrow>
                    (Inr (Str result),
                     s3\<lparr>this_blockNumber := Some block_number,
                        this_transactionIds := (this_transactionIds s3)(result \<mapsto> headTransactionId),
                        timers := timers s3 @ [fork]\<rparr>))
             else (Inr (Str result), s2))"

definition TenderlyProvider_request ::
  "upstream \<Rightarrow> tenderly \<Rightarrow> JsonRpcRequest \<Rightarrow> (request_error + rpc_result) \<times> tenderly" where
  "TenderlyProvider_request up s req =
     (if rpc_method req = ''eth_chainId''
      then (Inr (Str (''0x'' @ toString16 (this_chainId s))), s)
      else
        (case (if rpc_method req = ''eth_blockNumber'' \<and> truthy_number (this_blockNumber s)
               then this_blockNumber s else None) of
           Some cached \<Rightarrow> (Inr (Num cached), s)
         | None \<Rightarrow>
             if this_forkProviderPromise s = None \<and> \<not> forking_method (rpc_method req)
             then
               (case live_request up (length (calls s)) req of
                  Inl e \<Rightarrow> (Inl (LiveProviderError e), s\<lparr>calls := calls s @ [Live req]\<rparr>)
                | Inr r \<Rightarrow> (Inr (Str r), s\<lparr>calls := calls s @ [Live req]\<rparr>))
             else
               (let s1 = (if this_forkProviderPromise s = None
                          then createFork up s (this_chainId s) else s)
                in case this_forkProviderPromise s1 of
                     None \<Rightarrow> (Inl NoTenderlyFork, s1)
                   | Some (Inl e) \<Rightarrow> (Inl (ForkCreationError e), s1)
                   | Some (Inr fork) \<Rightarrow> forward up s1 fork req)))"


text \<open>
  The requests that never leave the provider: \<open>eth_chainId\<close>, and \<open>eth_blockNumber\<close>
  while a block number that is not zero is cached.
\<close>

definition answered_locally :: "tenderly \<Rightarrow> JsonRpcRequest \<Rightarrow> bool" where
  "answered_locally s req =
     (rpc_method req = ''eth_chainId''
      \<or> (rpc_method req = ''eth_blockNumber'' \<and> truthy_number (this_blockNumber s)))"

text \<open>Several requests one after the other: the results in order, and the last state.\<close>

fun TenderlyProvider_requests ::
  "upstream \<Rightarrow> tenderly \<Rightarrow> JsonRpcRequest list \<Rightarrow> (request_error + rpc_result) list \<times> tenderly" where
  "TenderlyProvider_requests up s [] = ([], s)"
| "TenderlyProvider_requests up s (req # reqs) =
     (case TenderlyProvider_request up s req of
        (r, s1) \<Rightarrow>
          (case TenderlyProvider_requests up s1 reqs of (rs, s2) \<Rightarrow> (r # rs, s2)))"


section \<open>Value normalisation: \<open>formatValue\<close>\<close>

text \<open>
  \<^verbatim>\<open>
  const formatValue = (value: string): string => {
    const valueBN = BigNumber.from(value)
    if (valueBN.isZero()) return '0x0'
    else return valueBN.toHexString().replace(/^0x(0+)/, '0x')
  }
  \<close>
  \<open>BigNumber\<close> is the class of the ethers library (version 5). A \<open>BigNumber\<close> holds
  its value as a hex string \<open>_hex\<close>, which \<open>toHexString\<close> returns. \<open>BigNumber.from\<close>
  accepts a string that matches \<open>/^-?0x[0-9a-f]+$/i\<close> or \<open>/^-?[0-9]+$/\<close> and throws
  on any other string; it normalises the digits with the library's \<open>toHex\<close>: an even
  number of digits, and no leading zero byte unless it is the only byte. The library
  functions are modelled here as far as \<open>formatValue\<close> uses them; a \<open>BigNumber\<close> is
  its \<open>_hex\<close> string, and \<open>None\<close> is the thrown error.
\<close>

definition isDecDigit :: "char \<Rightarrow> bool" where
  "isDecDigit c = (c \<in> set ''0123456789'')"

definition isHexDigit :: "char \<Rightarrow> bool" where
  "isHexDigit c = (c \<in> set ''0123456789abcdefABCDEF'')"

definition digit_val :: "char \<Rightarrow> nat" where
  "digit_val c =
     (let n = (of_char c :: nat) in
      if 48 \<le> n \<and> n \<le> 57 then n - 48
      else if 97 \<le> n \<and> n \<le> 102 then n - 87
      else if 65 \<le> n \<and> n \<le> 70 then n - 55
      else 0)"

definition hex_val :: "string \<Rightarrow> nat" where
  "hex_val ds = foldl (\<lambda>a c. 16 * a + digit_val c) 0 ds"

definition dec_val :: "string \<Rightarrow> nat" where
  "dec_val ds = foldl (\<lambda>a c. 10 * a + digit_val c) 0 ds"

text \<open>
  \<open>toHex\<close> on the digits behind \<open>0x\<close>:
  \<open>while (value.length > 4 && value.substring(0, 4) === "0x00") value = "0x" + value.substring(4)\<close>.
\<close>

fun trim_zero_bytes :: "string \<Rightarrow> string" where
  "trim_zero_bytes (a # b # c # rest) =
     (if a = CHR ''0'' \<and> b = CHR ''0'' then trim_zero_bytes (c # rest) else a # b # c # rest)"
| "trim_zero_bytes ds = ds"

definition toHex_unsigned :: "string \<Rightarrow> string" where
  "toHex_unsigned v =
     (let v1 = (if take 2 v \<noteq> ''0x'' then ''0x'' @ v else v) in
      if v1 = ''0x'' then ''0x00''
      else let v2 = (if odd (length v1) then ''0x0'' @ drop 2 v1 else v1)
           in ''0x'' @ trim_zero_bytes (drop 2 v2))"

definition toHex :: "string \<Rightarrow> string" where
  "toHex v =
     (case v of
        c # rest \<Rightarrow>
          if c = CHR ''-''
          then (let h = toHex_unsigned rest in if h = ''0x00'' then h else CHR ''-'' # h)
          else toHex_unsigned v
      | [] \<Rightarrow> toHex_unsigned v)"

definition unsigned_part :: "string \<Rightarrow> string" where
  "unsigned_part v = (case v of c # rest \<Rightarrow> if c = CHR ''-'' then rest else v | [] \<Rightarrow> v)"

definition is_negative :: "string \<Rightarrow> bool" where
  "is_negative v = (case v of c # rest \<Rightarrow> c = CHR ''-'' | [] \<Rightarrow> False)"

text \<open>
  The two tests of \<open>BigNumber.from\<close>, on the string without its sign. The first
  pattern ignores case, so the digits and the \<open>x\<close> of the prefix may be upper-case.
\<close>

definition isHexLiteral :: "string \<Rightarrow> bool" where
  "isHexLiteral v =
     ((take 2 v = ''0x'' \<or> take 2 v = ''0X'') \<and> drop 2 v \<noteq> []
      \<and> list_all isHexDigit (drop 2 v))"

definition isDecLiteral :: "string \<Rightarrow> bool" where
  "isDecLiteral v = (v \<noteq> [] \<and> list_all isDecDigit v)"

text \<open>
  A decimal string goes through the big-integer class: its value is printed in base 16
  (with the sign in front, none for zero) and handed to \<open>toHex\<close>.
\<close>

definition BigNumber_from :: "string \<Rightarrow> string option" where
  "BigNumber_from v =
     (if isHexLiteral (unsigned_part v) then Some (toHex v)
      else if isDecLiteral (unsigned_part v)
      then Some (toHex ((if is_negative v \<and> dec_val (unsigned_part v) \<noteq> 0 then ''-'' else [])
                        @ toString16 (dec_val (unsigned_part v))))
      else None)"

text \<open>
  \<open>isZero\<close> reads the digits behind the sign and the prefix with the big-integer
  library, which asserts that every one of them is a hex digit (\<open>None\<close> is the failed
  assertion). The digits are hex digits unless the string came with an upper-case
  prefix, which the test of \<open>BigNumber.from\<close> lets pass and \<open>toHex\<close> keeps behind
  the prefix it adds.
\<close>

definition isZero :: "string \<Rightarrow> bool option" where
  "isZero hex =
     (let ds = drop 2 (unsigned_part hex)
      in if list_all isHexDigit ds then Some (hex_val ds = 0) else None)"

definition toHexString :: "string \<Rightarrow> string" where
  "toHexString hex = hex"

text \<open>\<open>.replace(/^0x(0+)/, '0x')\<close>: zeros directly behind a leading \<open>0x\<close> are removed.\<close>

definition replace_leading_zeros :: "string \<Rightarrow> string" where
  "replace_leading_zeros s =
     (if take 3 s = ''0x0'' then ''0x'' @ dropWhile (\<lambda>c. c = CHR ''0'') (drop 3 s) else s)"

definition formatValue :: "string \<Rightarrow> string option" where
  "formatValue v =
     (case BigNumber_from v of
        None \<Rightarrow> None
      | Some valueBN \<Rightarrow>
          (case isZero valueBN of
             None \<Rightarrow> None
           | Some zero \<Rightarrow>
               if zero then Some ''0x0''
               else Some (replace_leading_zeros (toHexString valueBN))))"

text \<open>
  The canonical digits of a string of hex digits: its leading zeros removed, and one
  zero kept when nothing else is left. A string of digits has no leading zero when it
  is \<open>0\<close> itself or starts with another digit.
\<close>

definition canonical :: "string \<Rightarrow> string" where
  "canonical ds = (let t = dropWhile (\<lambda>c. c = CHR ''0'') ds in if t = [] then ''0'' else t)"

definition no_leading_zero :: "string \<Rightarrow> bool" where
  "no_leading_zero body = (body = ''0'' \<or> (body \<noteq> [] \<and> hd body \<noteq> CHR ''0''))"

definition pad_even :: "string \<Rightarrow> string" where
  "pad_even ds = (if odd (length ds) then CHR ''0'' # ds else ds)"

section \<open>Stored connections and their migrations\<close>

text \<open>
  The settings module keeps a list of \<open>Connection\<close> objects in local storage and
  migrates them on every read:
  \<^verbatim>\<open>
  const CONNECTION_STATE_MIGRATIONS: ConnectionStateMigration[] = [
    function addModuleType(connection) {
      return { ...connection,
               moduleType: connection.moduleType || KnownContracts.ROLES }
    },
  ]
  const migrateConnections = (connections) => {
    let migratedConnections = connections
    CONNECTION_STATE_MIGRATIONS.forEach((migration) => {
      migratedConnections = migratedConnections.map(migration)
    })
    return migratedConnections
  }
  \<close>
  A connection read back from storage may lack \<open>moduleType\<close> (older versions did not
  write it), so the field is an option: \<open>None\<close> is \<open>undefined\<close>. The members of the
  enum \<open>KnownContracts\<close> are strings at run time.
\<close>

datatype ProviderType = WalletConnect | MetaMask

record Connection =
  connId :: string
  label :: string
  chainId :: nat
  moduleAddress :: string
  avatarAddress :: string
  pilotAddress :: string
  providerType :: ProviderType
  moduleType :: "string option"
  roleId :: string

text \<open>The enum member \<open>KnownContracts.ROLES\<close> of the zodiac library.\<close>

definition KnownContracts_ROLES :: string where
  "KnownContracts_ROLES = ''roles''"

definition addModuleType :: "Connection \<Rightarrow> Connection" where
  "addModuleType connection =
     connection\<lparr>moduleType := js_or (moduleType connection) (Some KnownContracts_ROLES)\<rparr>"

definition CONNECTION_STATE_MIGRATIONS :: "(Connection \<Rightarrow> Connection) list" where
  "CONNECTION_STATE_MIGRATIONS = [addModuleType]"

text \<open>
  \<open>forEach\<close> visits the migrations from the first registered to the last; each visit
  replaces the running list by its image under the migration.
\<close>

definition migrateConnections :: "Connection list \<Rightarrow> Connection list" where
  "migrateConnections connections =
     foldl (\<lambda>migratedConnections migration. map migration migratedConnections)
       connections CONNECTION_STATE_MIGRATIONS"

section \<open>The batch encoder\<close>

text \<open>
  A recorded transaction is a \<open>TransactionState\<close>, of which the code below reads the
  \<open>input\<close> only; an input carries its id. \<open>encodeSingle\<close> and \<open>encodeMulti\<close> are
  functions of the react-multisend library and are parameters here, as are the request
  function of the wrapping provider and \<open>wrapRequest\<close>, which live in other modules.
  \<^verbatim>\<open>
  const submitTransactions = useCallback(async () => {
    const metaTransactions = transactions.map((txState) => encodeSingle(txState.input))
    const batchTransactionHash = await wrappingProvider.request({
      method: 'eth_sendTransaction',
      params: [
        metaTransactions.length === 1
          ? metaTransactions[0]
          : encodeMulti(metaTransactions, '0xA238CBeb142c10Ef7Ad8442C6D1f9E89e07e7761'),
      ],
    })
    dispatch({ type: 'SUBMIT_TRANSACTIONS', payload: { batchTransactionHash } })
    return batchTransactionHash
  }, [transactions, wrappingProvider, dispatch])
  \<close>
  \<^verbatim>\<open>
  const copyTransactionData = () => {
    const metaTransactions = newTransactions.map((tx) => encodeSingle(tx.input))
    const batchTransaction =
      metaTransactions.length === 1
        ? metaTransactions[0]
        : encodeMulti(metaTransactions, '0xA238CBeb142c10Ef7Ad8442C6D1f9E89e07e7761')
    const wrappedReq = wrapRequest(batchTransaction, connection)
    navigator.clipboard.writeText(JSON.stringify(wrappedReq, undefined, 2))
  }
  \<close>
\<close>

record MetaTransaction =
  mt_to :: string
  mt_value :: string
  mt_data :: string

record TransactionInput =
  input_id :: string
  input_call :: string

record TransactionState =
  input :: TransactionInput

definition MULTI_SEND_ADDRESS :: string where
  "MULTI_SEND_ADDRESS = ''0xA238CBeb142c10Ef7Ad8442C6D1f9E89e07e7761''"

datatype submit_effect =
    WrappingProvider_request string "MetaTransaction list"
  | Dispatch_SUBMIT_TRANSACTIONS json

text \<open>
  \<open>submitTransactions\<close> returns the hash or the error of the awaited call, with the
  effects in their order. \<open>copyTransactionData\<close> returns the object written to the
  clipboard.
\<close>

definition submitTransactions ::
  "(TransactionInput \<Rightarrow> MetaTransaction) \<Rightarrow> (MetaTransaction list \<Rightarrow> string \<Rightarrow> MetaTransaction)
   \<Rightarrow> (string \<Rightarrow> MetaTransaction list \<Rightarrow> json + json) \<Rightarrow> TransactionState list
   \<Rightarrow> (json + json) \<times> submit_effect list" where
  "submitTransactions encodeSingle encodeMulti wrappingProvider_request transactions =
     (let metaTransactions = map (\<lambda>txState. encodeSingle (input txState)) transactions;
          params = [if length metaTransactions = 1 then metaTransactions ! 0
                    else encodeMulti metaTransactions MULTI_SEND_ADDRESS]
      in case wrappingProvider_request ''eth_sendTransaction'' params of
           Inl e \<Rightarrow> (Inl e, [WrappingProvider_request ''eth_sendTransaction'' params])
         | Inr batchTransactionHash \<Rightarrow>
             (Inr batchTransactionHash,
              [WrappingProvider_request ''eth_sendTransaction'' params,
               Dispatch_SUBMIT_TRANSACTIONS batchTransactionHash]))"

definition copyTransactionData ::
  "(TransactionInput \<Rightarrow> MetaTransaction) \<Rightarrow> (MetaTransaction list \<Rightarrow> string \<Rightarrow> MetaTransaction)
   \<Rightarrow> (MetaTransaction \<Rightarrow> Connection \<Rightarrow> 'w) \<Rightarrow> Connection \<Rightarrow> TransactionState list \<Rightarrow> 'w" where
  "copyTransactionData encodeSingle encodeMulti wrapRequest connection newTransactions =
     (let metaTransactions = map (\<lambda>tx. encodeSingle (input tx)) newTransactions;
          batchTransaction =
            (if length metaTransactions = 1 then metaTransactions ! 0
             else encodeMulti metaTransactions MULTI_SEND_ADDRESS)
      in wrapRequest batchTransaction connection)"

section \<open>Re-fork and re-run\<close>

text \<open>
  \<^verbatim>\<open>
  const reforkAndRerun = async () => {
    // remove all transactions from the store
    dispatch({ type: 'REMOVE_TRANSACTION', payload: { id: allTransactions[0].input.id } })
    if (!(provider instanceof ForkProvider)) {
      throw new Error('This is only supported when using ForkProvider')
    }
    await provider.refork()
    // re-simulate all new transactions (assuming the already submitted ones have
    // already been mined on the fresh fork)
    for (let i = 0; i < newTransactions.length; i++) {
      const transaction = newTransactions[i]
      const encoded = encodeSingle(transaction.input)
      await provider.request({
        method: 'eth_sendTransaction',
        params: [{ to: encoded.to, data: encoded.data,
                   value: formatValue(encoded.value), from: connection.avatarAddress }],
      })
    }
  }
  \<close>
  \<open>allTransactions\<close> and \<open>newTransactions\<close> are the two views of the recording that
  the store hands out; the store and its reducer are another module, so the removal is
  the action that is dispatched (\<open>reduce\<close> below gives its effect on the ledger).
  The provider is a parameter too: whether it is a
  \<open>ForkProvider\<close>, and what \<open>refork\<close> and \<open>request\<close> answer in a provider state
  \<open>'p\<close> (\<open>Inl\<close> a rejection) and which state they leave. The model returns the error
  thrown, if any, and the effects in their order; \<open>Awaited\<close> marks the moment an awaited
  call has resolved and the function goes on.
\<close>

record TransactionRequest =
  tr_to :: string
  tr_data :: string
  tr_value :: string
  tr_from :: string

datatype rerun_effect =
    Dispatch_REMOVE_TRANSACTION string
  | Call_refork
  | Call_request string "TransactionRequest list"
  | Awaited

datatype rerun_error =
    TypeError_undefined
  | NotForkProvider
  | ReforkRejected json
  | InvalidBigNumberString
  | RequestRejected json

record 'p provider_api =
  is_ForkProvider :: bool
  provider_refork :: "'p \<Rightarrow> (json + json) \<times> 'p"
  provider_request :: "'p \<Rightarrow> string \<Rightarrow> TransactionRequest list \<Rightarrow> (json + json) \<times> 'p"

definition send_params :: "MetaTransaction \<Rightarrow> string \<Rightarrow> Connection \<Rightarrow> TransactionRequest list" where
  "send_params encoded v connection =
     [\<lparr>tr_to = mt_to encoded, tr_data = mt_data encoded, tr_value = v,
       tr_from = avatarAddress connection\<rparr>]"

text \<open>The \<open>for\<close> loop, from index \<open>i\<close> on: the transactions still to be sent.\<close>

fun rerun_loop ::
  "'p provider_api \<Rightarrow> (TransactionInput \<Rightarrow> MetaTransaction) \<Rightarrow> Connection
   \<Rightarrow> TransactionState list \<Rightarrow> 'p \<Rightarrow> rerun_error option \<times> rerun_effect list \<times> 'p" where
  "rerun_loop api encodeSingle connection [] p = (None, [], p)"
| "rerun_loop api encodeSingle connection (transaction # rest) p =
     (let encoded = encodeSingle (input transaction)
      in case formatValue (mt_value encoded) of
           None \<Rightarrow> (Some InvalidBigNumberString, [], p)
         | Some v \<Rightarrow>
             (let params = send_params encoded v connection;
                  call = Call_request ''eth_sendTransaction'' params
              in case provider_request api p ''eth_sendTransaction'' params of
                   (Inl e, p1) \<Rightarrow> (Some (RequestRejected e), [call], p1)
                 | (Inr _, p1) \<Rightarrow>
                     (case rerun_loop api encodeSingle connection rest p1 of
                        (err, effects, p2) \<Rightarrow> (err, call # Awaited # effects, p2))))"

definition reforkAndRerun ::
  "'p provider_api \<Rightarrow> (TransactionInput \<Rightarrow> MetaTransaction) \<Rightarrow> Connection
   \<Rightarrow> TransactionState list \<Rightarrow> TransactionState list \<Rightarrow> 'p
   \<Rightarrow> rerun_error option \<times> rerun_effect list \<times> 'p" where
  "reforkAndRerun api encodeSingle connection allTransactions newTransactions p =
     (case allTransactions of
        [] \<Rightarrow> (Some TypeError_undefined, [], p)
      | first # _ \<Rightarrow>
          (let removal = Dispatch_REMOVE_TRANSACTION (input_id (input first))
           in if \<not> is_ForkProvider api then (Some NotForkProvider, [removal], p)
              else (case provider_refork api p of
                      (Inl e, p1) \<Rightarrow> (Some (ReforkRejected e), [removal, Call_refork], p1)
                    | (Inr _, p1) \<Rightarrow>
                        (case rerun_loop api encodeSingle connection newTransactions p1 of
                           (err, effects, p2) \<Rightarrow>
                             (err, removal # Call_refork # Awaited # effects, p2)))))"

text \<open>
  The calls a complete re-run of the given transactions makes, and the provider state
  after them: each call starts in the state the call before it has left.
\<close>

definition sends_of ::
  "(TransactionInput \<Rightarrow> MetaTransaction) \<Rightarrow> Connection \<Rightarrow> TransactionState list
   \<Rightarrow> TransactionRequest list list" where
  "sends_of encodeSingle connection txs =
     map (\<lambda>t. send_params (encodeSingle (input t))
                 (case formatValue (mt_value (encodeSingle (input t))) of
                    Some v \<Rightarrow> v | None \<Rightarrow> [])
                 connection) txs"

definition is_send :: "rerun_effect \<Rightarrow> bool" where
  "is_send e = (case e of Call_request m ps \<Rightarrow> m = ''eth_sendTransaction'' | _ \<Rightarrow> False)"

text \<open>
  The effects of the loop when every call resolves: each request is followed by the
  moment it is awaited. A provider never rejects when it is a \<open>ForkProvider\<close> and
  neither \<open>refork\<close> nor a send is ever rejected.
\<close>

definition sends_trace ::
  "(TransactionInput \<Rightarrow> MetaTransaction) \<Rightarrow> Connection \<Rightarrow> TransactionState list
   \<Rightarrow> rerun_effect list" where
  "sends_trace encodeSingle connection txs =
     concat (map (\<lambda>params. [Call_request ''eth_sendTransaction'' params, Awaited])
               (sends_of encodeSingle connection txs))"

definition provider_never_rejects :: "'p provider_api \<Rightarrow> bool" where
  "provider_never_rejects api =
     (is_ForkProvider api
      \<and> (\<forall>p. \<not> isl (fst (provider_refork api p)))
      \<and> (\<forall>p params. \<not> isl (fst (provider_request api p ''eth_sendTransaction'' params))))"

text \<open>
  Modelled from the spec: the store and its reducer are not among the sources. The
  specification gives the ledger a removal by id, ``used only when discarding the first
  entry before a re-fork'', and has the re-run ``drop all entries from the ledger''; the
  comment at the dispatch reads ``remove all transactions from the store''. So the
  removal of an entry takes with it every entry recorded after it: what is left of the
  ledger are the entries before the one with the given id.
\<close>

definition REMOVE_TRANSACTION :: "string \<Rightarrow> TransactionState list \<Rightarrow> TransactionState list" where
  "REMOVE_TRANSACTION i state = takeWhile (\<lambda>item. input_id (input item) \<noteq> i) state"

text \<open>The ledger after an effect: only a dispatched removal changes it.\<close>

definition reduce :: "rerun_effect \<Rightarrow> TransactionState list \<Rightarrow> TransactionState list" where
  "reduce effect state =
     (case effect of Dispatch_REMOVE_TRANSACTION i \<Rightarrow> REMOVE_TRANSACTION i state | _ \<Rightarrow> state)"

text \<open>The \<open>value\<close> fields of the parameters of a request.\<close>

definition send_values :: "rerun_effect \<Rightarrow> string option list" where
  "send_values effect =
     (case effect of Call_request m params \<Rightarrow> map (\<lambda>tr. Some (tr_value tr)) params | _ \<Rightarrow> [])"

section \<open>Scenarios\<close>

text \<open>Concrete requests, events and parties, used to run the model.\<close>

definition req0 :: JsonRpcRequest where
  "req0 = \<lparr>rpc_method = ''eth_call'', rpc_params = None\<rparr>"

definition reply :: "nat \<Rightarrow> json \<Rightarrow> MessageEvent" where
  "reply i r = \<lparr>ev_data = no_data\<lparr>zodiacPilotGanacheResponse := True, messageId := Some i,
                                     response := Some r\<rparr>,
               ev_source = WindowSource 1\<rparr>"

definition foreign_request :: MessageEvent where
  "foreign_request =
     \<lparr>ev_data = request_data Eip1193Provider 0 req0, ev_source = WindowSource 2\<rparr>"

definition handshake :: MessageEvent where
  "handshake = \<lparr>ev_data = init_data, ev_source = WindowSource 1\<rparr>"

definition spoofed_response :: MessageEvent where
  "spoofed_response =
     \<lparr>ev_data = no_data\<lparr>zodiacPilotGanacheResponse := True, messageId := Some 0,
                         response := Some ''spoofed''\<rparr>,
      ev_source = WindowSource 2\<rparr>"

definition ganache0 :: "JsonRpcRequest option \<Rightarrow> json + json" where
  "ganache0 r =
     (case r of
        None \<Rightarrow> Inl ''invalid request''
      | Some q \<Rightarrow> if rpc_method q = ''eth_sendTransaction'' then Inl ''revert'' else Inr ''0x1'')"

definition req1 :: JsonRpcRequest where
  "req1 = \<lparr>rpc_method = ''eth_sendTransaction'', rpc_params = None\<rparr>"

definition from_iframe :: "data \<Rightarrow> MessageEvent" where
  "from_iframe d = \<lparr>ev_data = d, ev_source = WindowSource 1\<rparr>"

definition up0 :: upstream where
  "up0 =
     \<lparr>live_request = (\<lambda>t r. Inr ''live''),
      api_createFork = (\<lambda>t n. Inr (''fork-1'', 100)),
      fork_send = (\<lambda>t fork m ps.
         if m = ''eth_call'' then Inl \<lparr>error_code = Some (- 32603), error_text = ''rate limit''\<rparr>
         else if m = ''eth_estimateGas''
         then Inl \<lparr>error_code = Some 3, error_text = ''execution reverted''\<rparr>
         else Inr ''0xhash''),
      api_forkInfo = (\<lambda>t fork. Inr (''head-1'', 101))\<rparr>"

definition rpc :: "string \<Rightarrow> JsonRpcRequest" where
  "rpc m = \<lparr>rpc_method = m, rpc_params = None\<rparr>"

definition after_send :: tenderly where
  "after_send =
     \<lparr>this_chainId = 1, this_forkProviderPromise = Some (Inr ''fork-1''),
      this_forkId = Some ''fork-1'', this_transactionIds = [''0xhash'' \<mapsto> ''head-1''],
      this_blockNumber = Some 101, timers = [''fork-1''],
      calls = [CreateFork 1, ForkSend ''fork-1'' ''eth_sendTransaction'' [], ForkInfo ''fork-1'']\<rparr>"

definition api0 :: "nat provider_api" where
  "api0 = \<lparr>is_ForkProvider = True,
           provider_refork = (\<lambda>p. (Inr ''forked'', 0)),
           provider_request = (\<lambda>p m params. (Inr ''0xhash'', p + 1))\<rparr>"

definition encodeSingle0 :: "TransactionInput \<Rightarrow> MetaTransaction" where
  "encodeSingle0 i = \<lparr>mt_to = input_call i, mt_value = ''0x00'', mt_data = input_id i\<rparr>"

definition encodeMulti0 :: "MetaTransaction list \<Rightarrow> string \<Rightarrow> MetaTransaction" where
  "encodeMulti0 txs address =
     \<lparr>mt_to = address, mt_value = ''0x00'', mt_data = concat (map mt_data txs)\<rparr>"

definition tx :: "string \<Rightarrow> TransactionState" where
  "tx i = \<lparr>input = \<lparr>input_id = i, input_call = ''0xdapp''\<rparr>\<rparr>"

definition connection0 :: Connection where
  "connection0 =
     \<lparr>connId = ''c'', label = '''', chainId = 1, moduleAddress = ''0xmod'',
      avatarAddress = ''0xavatar'', pilotAddress = ''0xpilot'', providerType = MetaMask,
      moduleType = None, roleId = ''''\<rparr>"

definition send0 :: "string \<Rightarrow> rerun_effect" where
  "send0 i = Call_request ''eth_sendTransaction''
               [\<lparr>tr_to = ''0xdapp'', tr_data = i, tr_value = ''0x0'', tr_from = ''0xavatar''\<rparr>]"

definition wrappingProvider0 :: "string \<Rightarrow> MetaTransaction list \<Rightarrow> json + json" where
  "wrappingProvider0 m params = Inr ''0xbatch''"


text \<open>An encoder that gives the transaction \<open>b\<close> a value without digits.\<close>

definition encodeSingle1 :: "TransactionInput \<Rightarrow> MetaTransaction" where
  "encodeSingle1 i =
     \<lparr>mt_to = input_call i, mt_value = (if input_id i = ''b'' then ''0x'' else ''0x00''),
      mt_data = input_id i\<rparr>"

section \<open>Properties\<close>

subsection \<open>Message id correlation\<close>

lemma bridge_requests_snoc:
  "bridge_requests b (reqs @ [req]) s = snd (bridge_request b req (bridge_requests b reqs s))"
  by (simp add: bridge_requests_def)

lemma bridge_requests_new:
  "bridge_requests b reqs (new_provider b w) = issued b w reqs"
proof (induction reqs rule: rev_induct)
  case Nil
  show ?case by (simp add: bridge_requests_def issued_def new_provider_def)
next
  case (snoc req reqs)
  show ?case
    unfolding bridge_requests_snoc snoc.IH
    by (simp add: issued_def bridge_request_def Let_def enumerate_append_eq
        replicate_append_same)
qed


lemma handleMessage_nomatch: "\<not> matches b ev (snd l) \<Longrightarrow> handleMessage b l ev s = s"
  by (cases l) (auto simp: handleMessage_def matches_def)

lemma handleMessage_match:
  "matches b ev k \<Longrightarrow>
   handleMessage b (p, k) ev s =
     s\<lparr>listeners := remove1 (p, k) (listeners s),
       promises := settle p (outcome (ev_data ev)) (promises s)\<rparr>"
  by (simp add: handleMessage_def matches_def)

lemma foldl_nomatch:
  "\<forall>l\<in>set ls. \<not> matches b ev (snd l) \<Longrightarrow> foldl (\<lambda>s' l. handleMessage b l ev s') s ls = s"
  by (induction ls arbitrary: s) (simp_all add: handleMessage_nomatch)

lemma matches_unique: "matches b ev i \<Longrightarrow> matches b ev k \<Longrightarrow> k = i"
  by (simp add: matches_def)

lemma dispatchEvent_nomatch:
  assumes "listeners s = map (\<lambda>k. (k, k)) ks" "\<forall>k\<in>set ks. \<not> matches b ev k"
  shows "dispatchEvent b ev s = s"
  unfolding dispatchEvent_def using assms by (intro foldl_nomatch) auto

lemma dispatchEvent_match:
  assumes ls: "listeners s = map (\<lambda>k. (k, k)) ks" and d: "distinct ks"
    and i: "i \<in> set ks" and m: "matches b ev i"
  shows "dispatchEvent b ev s =
           s\<lparr>listeners := map (\<lambda>k. (k, k)) (removeAll i ks),
             promises := settle i (outcome (ev_data ev)) (promises s)\<rparr>"
proof -
  obtain xs ys where ks: "ks = xs @ i # ys" and nx: "i \<notin> set xs"
    using split_list_first [OF i] by blast
  have ny: "i \<notin> set ys" using d by (simp add: ks)
  have mx: "\<forall>l\<in>set (map (\<lambda>k. (k, k)) xs). \<not> matches b ev (snd l)"
    using nx matches_unique [OF m] by auto
  have my: "\<forall>l\<in>set (map (\<lambda>k. (k, k)) ys). \<not> matches b ev (snd l)"
    using ny matches_unique [OF m] by auto
  have rem: "remove1 (i, i) (map (\<lambda>k. (k, k)) xs @ (i, i) # map (\<lambda>k. (k, k)) ys)
             = map (\<lambda>k. (k, k)) xs @ map (\<lambda>k. (k, k)) ys"
    using nx by (auto simp: remove1_append)
  have ra: "removeAll i ks = xs @ ys"
    using nx ny by (simp add: ks)
  have "dispatchEvent b ev s
        = foldl (\<lambda>s' l. handleMessage b l ev s') (handleMessage b (i, i) ev s)
            (map (\<lambda>k. (k, k)) ys)"
    unfolding dispatchEvent_def ls ks by (simp add: foldl_nomatch [OF mx])
  also have "\<dots> = handleMessage b (i, i) ev s"
    by (rule foldl_nomatch [OF my])
  also have "\<dots> = s\<lparr>listeners := map (\<lambda>k. (k, k)) (removeAll i ks),
                       promises := settle i (outcome (ev_data ev)) (promises s)\<rparr>"
    unfolding handleMessage_match [OF m] ra using rem by (simp add: ls ks)
  finally show ?thesis .
qed

lemma find_snoc:
  "find P (xs @ [x]) = (case find P xs of Some y \<Rightarrow> Some y | None \<Rightarrow> if P x then Some x else None)"
  by (induction xs) simp_all

lemma answers_snoc:
  "answers b (evs @ [ev]) k =
     (case answers b evs k of Some e \<Rightarrow> Some e | None \<Rightarrow> if matches b ev k then Some ev else None)"
  by (simp add: answers_def find_snoc)

lemma dispatchEvents_snoc:
  "dispatchEvents b (evs @ [ev]) s = dispatchEvent b ev (dispatchEvents b evs s)"
  by (simp add: dispatchEvents_def)

lemma delivered_Nil: "delivered b w reqs [] = issued b w reqs"
  by (simp add: delivered_def issued_def answers_def map_replicate_const)

lemma delivered_step:
  "dispatchEvent b ev (delivered b w reqs evs) = delivered b w reqs (evs @ [ev])"
proof -
  let ?N = "length reqs"
  let ?ks = "filter (\<lambda>k. answers b evs k = None) [0..<?N]"
  let ?s = "delivered b w reqs evs"
  have ls: "listeners ?s = map (\<lambda>k. (k, k)) ?ks"
    by (simp add: delivered_def)
  have dist: "distinct ?ks" by simp
  show ?thesis
  proof (cases "\<exists>i\<in>set ?ks. matches b ev i")
    case True
    then obtain i where i: "i \<in> set ?ks" and m: "matches b ev i" by blast
    then have iN: "i < ?N" and ai: "answers b evs i = None" by simp_all
    have other: "k \<noteq> i \<Longrightarrow> \<not> matches b ev k" for k
      using matches_unique [OF m] by blast
    have an: "answers b (evs @ [ev]) k
              = (if k = i then Some ev else answers b evs k)" for k
      using m ai other [of k] by (auto simp: answers_snoc split: option.splits)
    have f: "removeAll i ?ks = filter (\<lambda>k. answers b (evs @ [ev]) k = None) [0..<?N]"
      using ai by (auto simp: removeAll_filter_not_eq an intro!: filter_cong)
    have p: "settle i (outcome (ev_data ev)) (promises ?s)
             = map (\<lambda>k. map_option (\<lambda>ev. outcome (ev_data ev)) (answers b (evs @ [ev]) k))
                 [0..<?N]"
      using iN ai
      by (auto simp: delivered_def settle_def an nth_list_update intro!: nth_equalityI)
    show ?thesis
      unfolding dispatchEvent_match [OF ls dist i m] f p
      by (simp add: delivered_def)
  next
    case False
    then have no: "\<forall>k\<in>set ?ks. \<not> matches b ev k" by blast
    have an: "answers b (evs @ [ev]) k = answers b evs k" if "k < ?N" for k
      using that no by (auto simp: answers_snoc split: option.splits)
    have "delivered b w reqs (evs @ [ev]) = ?s"
      unfolding delivered_def using an
      by (auto intro!: arg_cong2 [where f = "\<lambda>a b. issued _ _ _\<lparr>listeners := a, promises := b\<rparr>"]
          filter_cong arg_cong [where f = "map _"])
    then show ?thesis
      using dispatchEvent_nomatch [OF ls no] by simp
  qed
qed

lemma dispatchEvents_issued:
  "dispatchEvents b evs (issued b w reqs) = delivered b w reqs evs"
proof (induction evs rule: rev_induct)
  case Nil
  show ?case by (simp add: dispatchEvents_def delivered_Nil)
next
  case (snoc ev evs)
  show ?case
    unfolding dispatchEvents_snoc snoc.IH by (rule delivered_step)
qed


text \<open>
  Claim C1. A new provider of either class gives the requests issued through it the
  message ids \<open>0, 1, 2, ...\<close> in the order of issue, one envelope per request. Whatever
  events arrive afterwards and in whatever order, the promise of request \<open>k\<close> is
  settled by the first event that carries the response tag and the message id \<open>k\<close>,
  with that event's payload, and by no other event; it stays pending when there is no
  such event. The listeners that remain registered are those of the requests without
  such an event.
\<close>

theorem bridge_correlation:
  "this_messageId (bridge_requests b reqs (new_provider b w)) = length reqs
   \<and> outbox (bridge_requests b reqs (new_provider b w))
       = outbox (new_provider b w)
         @ map (\<lambda>(i, req). request_data b i req) (enumerate 0 reqs)
   \<and> map messageId (map (\<lambda>(i, req). request_data b i req) (enumerate 0 reqs))
       = map Some [0..<length reqs]
   \<and> promises (dispatchEvents b evs (bridge_requests b reqs (new_provider b w)))
       = map (\<lambda>k. map_option (\<lambda>ev. outcome (ev_data ev))
                      (find (\<lambda>ev. response_tag b (ev_data ev)
                                  \<and> messageId (ev_data ev) = Some k) evs))
           [0..<length reqs]
   \<and> listeners (dispatchEvents b evs (bridge_requests b reqs (new_provider b w)))
       = map (\<lambda>k. (k, k))
           (filter (\<lambda>k. find (\<lambda>ev. response_tag b (ev_data ev)
                                      \<and> messageId (ev_data ev) = Some k) evs = None)
              [0..<length reqs])"
proof -
  have ids: "map messageId (map (\<lambda>(i, req). request_data b i req) (enumerate 0 reqs))
             = map Some [0..<length reqs]"
    by (rule nth_equalityI)
      (auto simp: nth_enumerate_eq request_data_def no_data_def split: bridge.splits)
  have s1: "bridge_requests b reqs (new_provider b w) = issued b w reqs"
    by (rule bridge_requests_new)
  have s2: "dispatchEvents b evs (issued b w reqs) = delivered b w reqs evs"
    by (rule dispatchEvents_issued)
  show ?thesis
    unfolding s1 s2 using ids
    by (simp add: issued_def delivered_def answers_def matches_def)
qed

theorem bridge_correlation_witness:
  "promises (dispatchEvents GanacheProvider [reply 2 ''c'', reply 0 ''a'']
      (bridge_requests GanacheProvider [req0, req0, req0] (new_provider GanacheProvider 1)))
   = [Some (Resolved (Some ''a'')), None, Some (Resolved (Some ''c''))]
   \<and> listeners (dispatchEvents GanacheProvider [reply 2 ''c'', reply 0 ''a'']
      (bridge_requests GanacheProvider [req0, req0, req0] (new_provider GanacheProvider 1)))
   = [(1, 1)]"
  using bridge_correlation [of GanacheProvider "[req0, req0, req0]" 1 "[reply 2 ''c'', reply 0 ''a'']"]
  by (simp add: upt_rec reply_def response_tag_def no_data_def outcome_def)


subsection \<open>The sender check\<close>

lemma assertConsistentSource_iff:
  "assertConsistentSource h ev = (if from_recorded_source h ev then Inr () else Inl UnexpectedMessageSource)"
  by (auto simp: assertConsistentSource_def from_recorded_source_def
      split: source.splits option.splits)

text \<open>
  Claim C2, as the code has it. A request envelope that reaches the host from any
  context but the recorded one (or before any context is recorded) makes
  \<open>handleMessage\<close> throw \<open>unexpected message source\<close>, and the target provider is not
  called; a request envelope from the recorded context is handed to the target provider
  with its message id; and whenever \<open>handleMessage\<close> returns with a new call to the
  target provider, the event came from the recorded context.
\<close>

theorem host_rejects_foreign_request:
  "(zodiacPilotRequestFromGanache (ev_data ev) \<and> \<not> zodiacPilotGanacheInit (ev_data ev)
      \<and> \<not> from_recorded_source h ev
     \<longrightarrow> host_handleMessage h ev = Inl UnexpectedMessageSource)
   \<and> (zodiacPilotRequestFromGanache (ev_data ev) \<and> \<not> zodiacPilotGanacheInit (ev_data ev)
      \<and> from_recorded_source h ev
     \<longrightarrow> host_handleMessage h ev
         = Inr (h\<lparr>provider_calls := provider_calls h
                     @ [(request (ev_data ev), messageId (ev_data ev))]\<rparr>))
   \<and> (host_handleMessage h ev = Inr h' \<and> provider_calls h' \<noteq> provider_calls h
     \<longrightarrow> from_recorded_source h ev)"
proof (intro conjI impI)
  assume "zodiacPilotRequestFromGanache (ev_data ev) \<and> \<not> zodiacPilotGanacheInit (ev_data ev)
      \<and> \<not> from_recorded_source h ev"
  then show "host_handleMessage h ev = Inl UnexpectedMessageSource"
    by (simp add: host_handleMessage_def assertConsistentSource_iff)
next
  assume a: "zodiacPilotRequestFromGanache (ev_data ev) \<and> \<not> zodiacPilotGanacheInit (ev_data ev)
      \<and> from_recorded_source h ev"
  then have "this_source h \<noteq> None"
    by (auto simp: from_recorded_source_def split: option.splits)
  with a show "host_handleMessage h ev
         = Inr (h\<lparr>provider_calls := provider_calls h
                     @ [(request (ev_data ev), messageId (ev_data ev))]\<rparr>)"
    by (auto simp: host_handleMessage_def assertConsistentSource_iff handleRequest_call_def)
next
  assume "host_handleMessage h ev = Inr h' \<and> provider_calls h' \<noteq> provider_calls h"
  then show "from_recorded_source h ev"
    by (auto simp: host_handleMessage_def assertConsistentSource_iff initBridge_def
        handleRequest_call_def split: if_splits source.splits sum.splits)
qed

theorem host_rejects_foreign_request_witness:
  "host_handleMessage new_host handshake
     = Inr (new_host\<lparr>this_source := Some 1, ready := 1\<rparr>)
   \<and> host_handleMessage (new_host\<lparr>this_source := Some 1, ready := 1\<rparr>) foreign_request
     = Inl UnexpectedMessageSource
   \<and> host_handleMessage (new_host\<lparr>this_source := Some 1, ready := 1\<rparr>)
       (foreign_request\<lparr>ev_source := WindowSource 1\<rparr>)
     = Inr (new_host\<lparr>this_source := Some 1, ready := 1,
                     provider_calls := [(Some req0, Some 0)]\<rparr>)"
  using host_rejects_foreign_request
    [of foreign_request "new_host\<lparr>this_source := Some 1, ready := 1\<rparr>"]
    host_rejects_foreign_request
    [of "foreign_request\<lparr>ev_source := WindowSource 1\<rparr>"
        "new_host\<lparr>this_source := Some 1, ready := 1\<rparr>"]
  by (simp add: foreign_request_def handshake_def request_data_def no_data_def init_data_def
      from_recorded_source_def new_host_def host_handleMessage_def initBridge_def)

text \<open>
  The claim C2 also speaks of response envelopes. The calling side does not look at the
  source of an event: a response envelope from window 2 settles the pending promise of
  a \<open>GanacheProvider\<close> whose peer is window 1.
\<close>

theorem foreign_response_resolves:
  "peer (snd (bridge_request GanacheProvider req0 (new_provider GanacheProvider 1))) = Some 1
   \<and> promises (snd (bridge_request GanacheProvider req0 (new_provider GanacheProvider 1)))
     = [None]
   \<and> ev_source spoofed_response = WindowSource 2
   \<and> promises (dispatchEvent GanacheProvider spoofed_response
        (snd (bridge_request GanacheProvider req0 (new_provider GanacheProvider 1))))
     = [Some (Resolved (Some ''spoofed''))]"
  by (simp add: bridge_request_def new_provider_def dispatchEvent_def handleMessage_def
      spoofed_response_def response_tag_def no_data_def settle_def outcome_def)


subsection \<open>The iframe listener posts results only\<close>

lemma listener_posts:
  "list_all (\<lambda>d. zodiacPilotGanacheResponse d \<and> error d = None)
     (setupFork_listener window_top ganache ev)"
  by (simp add: setupFork_listener_def no_data_def split: sum.splits)

lemma listener_rejected:
  "isl (ganache (request (ev_data ev))) \<Longrightarrow> setupFork_listener window_top ganache ev = []"
  by (auto simp: setupFork_listener_def split: sum.splits)

lemma reply_origin:
  assumes "d \<in> set (sandbox_replies ganache page
                      (map (\<lambda>(i, req). request_data GanacheProvider i req) (enumerate 0 reqs)))"
  shows "\<exists>j r. j < length reqs \<and> ganache (Some (reqs ! j)) = Inr r \<and> d = result_data j r"
proof -
  from assms obtain j where j: "j < length reqs"
    and d: "d \<in> set (setupFork_listener True ganache
                \<lparr>ev_data = request_data GanacheProvider j (reqs ! j),
                 ev_source = WindowSource page\<rparr>)"
    by (auto simp: sandbox_replies_def in_set_enumerate_eq)
  show ?thesis
  proof (cases "ganache (Some (reqs ! j))")
    case (Inl e)
    with d show ?thesis
      by (simp add: setupFork_listener_def request_data_def no_data_def)
  next
    case (Inr r)
    with d have "d = result_data j r"
      by (simp add: setupFork_listener_def request_data_def no_data_def result_data_def)
    with j Inr show ?thesis by blast
  qed
qed

lemma answered_by_sandbox:
  assumes sub: "set (map ev_data evs)
                \<subseteq> set (sandbox_replies ganache page
                        (outbox (bridge_requests GanacheProvider reqs (new_provider GanacheProvider w))))"
    and a: "answers GanacheProvider evs k = Some ev"
  shows "\<exists>r. ganache (Some (reqs ! k)) = Inr r \<and> ev_data ev = result_data k r"
proof -
  have ob: "outbox (bridge_requests GanacheProvider reqs (new_provider GanacheProvider w))
            = map (\<lambda>(i, req). request_data GanacheProvider i req) (enumerate 0 reqs)"
    unfolding bridge_requests_new by (simp add: issued_def new_provider_def)
  from a have "ev \<in> set evs" and m: "matches GanacheProvider ev k"
    by (auto simp: answers_def find_Some_iff)
  then have "ev_data ev \<in> set (sandbox_replies ganache page
                (map (\<lambda>(i, req). request_data GanacheProvider i req) (enumerate 0 reqs)))"
    using sub unfolding ob by auto
  from reply_origin [OF this] obtain j r where
    r: "ganache (Some (reqs ! j)) = Inr r" and d: "ev_data ev = result_data j r"
    by blast
  from m d have "j = k"
    by (simp add: matches_def result_data_def)
  with r d show ?thesis by blast
qed

text \<open>
  Claim C10. Every envelope the listener of \<open>setupFork\<close> posts is a response envelope
  without an error field. When the simulator rejects a request, the listener posts
  nothing. So, for requests issued through a new \<open>GanacheProvider\<close> and any events
  whose data are envelopes the listener has posted for them (in any order, any number of
  times): the promise of a request that the simulator rejects stays pending with its
  listener registered, and no promise is ever rejected.
\<close>

theorem sandbox_never_posts_error:
  "list_all (\<lambda>d. zodiacPilotGanacheResponse d \<and> error d = None)
     (setupFork_listener window_top ganache ev)
   \<and> (isl (ganache (request (ev_data ev))) \<longrightarrow> setupFork_listener window_top ganache ev = [])
   \<and> (set (map ev_data evs)
         \<subseteq> set (sandbox_replies ganache page
                 (outbox (bridge_requests GanacheProvider reqs (new_provider GanacheProvider w))))
       \<and> k < length reqs \<longrightarrow>
         (isl (ganache (Some (reqs ! k))) \<longrightarrow>
            promises (dispatchEvents GanacheProvider evs
              (bridge_requests GanacheProvider reqs (new_provider GanacheProvider w))) ! k = None
            \<and> (k, k) \<in> set (listeners (dispatchEvents GanacheProvider evs
                 (bridge_requests GanacheProvider reqs (new_provider GanacheProvider w)))))
         \<and> (\<forall>e. promises (dispatchEvents GanacheProvider evs
              (bridge_requests GanacheProvider reqs (new_provider GanacheProvider w))) ! k
              \<noteq> Some (Rejected e)))"
proof (intro conjI impI allI)
  show "list_all (\<lambda>d. zodiacPilotGanacheResponse d \<and> error d = None)
          (setupFork_listener window_top ganache ev)"
    by (rule listener_posts)
next
  assume "isl (ganache (request (ev_data ev)))"
  then show "setupFork_listener window_top ganache ev = []"
    by (rule listener_rejected)
next
  let ?s2 = "dispatchEvents GanacheProvider evs
               (bridge_requests GanacheProvider reqs (new_provider GanacheProvider w))"
  assume h: "set (map ev_data evs)
         \<subseteq> set (sandbox_replies ganache page
                 (outbox (bridge_requests GanacheProvider reqs (new_provider GanacheProvider w))))
       \<and> k < length reqs"
  then have k: "k < length reqs" by simp
  have s2: "?s2 = delivered GanacheProvider w reqs evs"
    by (simp add: bridge_requests_new dispatchEvents_issued)
  have pk: "promises ?s2 ! k
            = map_option (\<lambda>ev. outcome (ev_data ev)) (answers GanacheProvider evs k)"
    using k by (simp add: s2 delivered_def)
  {
    assume rej: "isl (ganache (Some (reqs ! k)))"
    have none: "answers GanacheProvider evs k = None"
    proof (cases "answers GanacheProvider evs k")
      case None
      then show ?thesis .
    next
      case (Some ev)
      from answered_by_sandbox [OF conjunct1 [OF h] Some] rej show ?thesis by auto
    qed
    show "promises ?s2 ! k = None" by (simp add: pk none)
    show "(k, k) \<in> set (listeners ?s2)"
      using k none by (simp add: s2 delivered_def)
  }
  fix e
  show "promises ?s2 ! k \<noteq> Some (Rejected e)"
  proof (cases "answers GanacheProvider evs k")
    case None
    then show ?thesis by (simp add: pk)
  next
    case (Some ev)
    from answered_by_sandbox [OF conjunct1 [OF h] Some]
    obtain r where "ev_data ev = result_data k r" by blast
    then show ?thesis
      by (simp add: pk Some outcome_def result_data_def no_data_def)
  qed
qed


lemma replies0:
  "sandbox_replies ganache0 0
     (outbox (bridge_requests GanacheProvider [req1, req0] (new_provider GanacheProvider 1)))
   = [result_data 1 ''0x1'']"
  by (simp add: sandbox_replies_def bridge_requests_def bridge_request_def new_provider_def
      setupFork_listener_def request_data_def no_data_def ganache0_def req0_def req1_def
      result_data_def)

theorem sandbox_never_posts_error_witness:
  "setupFork_listener True ganache0
     \<lparr>ev_data = request_data GanacheProvider 0 req1, ev_source = WindowSource 0\<rparr> = []
   \<and> promises (dispatchEvents GanacheProvider
        (map from_iframe (sandbox_replies ganache0 0
           (outbox (bridge_requests GanacheProvider [req1, req0] (new_provider GanacheProvider 1)))))
        (bridge_requests GanacheProvider [req1, req0] (new_provider GanacheProvider 1))) ! 0 = None
   \<and> promises (dispatchEvents GanacheProvider
        (map from_iframe (sandbox_replies ganache0 0
           (outbox (bridge_requests GanacheProvider [req1, req0] (new_provider GanacheProvider 1)))))
        (bridge_requests GanacheProvider [req1, req0] (new_provider GanacheProvider 1))) ! 1
       = Some (Resolved (Some ''0x1''))"
proof -
  have rej: "isl (ganache0 (Some req1))"
    by (simp add: ganache0_def req1_def)
  have sub: "set (map ev_data (map from_iframe (sandbox_replies ganache0 0
           (outbox (bridge_requests GanacheProvider [req1, req0] (new_provider GanacheProvider 1))))))
        \<subseteq> set (sandbox_replies ganache0 0
           (outbox (bridge_requests GanacheProvider [req1, req0] (new_provider GanacheProvider 1))))"
    by (simp add: from_iframe_def comp_def)
  have one: "promises (dispatchEvents GanacheProvider
        (map from_iframe (sandbox_replies ganache0 0
           (outbox (bridge_requests GanacheProvider [req1, req0] (new_provider GanacheProvider 1)))))
        (bridge_requests GanacheProvider [req1, req0] (new_provider GanacheProvider 1))) ! 1
       = Some (Resolved (Some ''0x1''))"
    unfolding replies0
    by (simp add: bridge_requests_def bridge_request_def new_provider_def dispatchEvents_def
        dispatchEvent_def handleMessage_def from_iframe_def result_data_def no_data_def
        response_tag_def settle_def outcome_def)
  from sandbox_never_posts_error
    [where window_top = True and ganache = ganache0 and page = 0 and w = 1 and k = 0
       and reqs = "[req1, req0]"
       and ev = "\<lparr>ev_data = request_data GanacheProvider 0 req1, ev_source = WindowSource 0\<rparr>"
       and evs = "map from_iframe (sandbox_replies ganache0 0
           (outbox (bridge_requests GanacheProvider [req1, req0] (new_provider GanacheProvider 1))))"]
  show ?thesis
    using rej sub one by (simp add: request_data_def no_data_def)
qed


subsection \<open>The remote fork backend\<close>

lemma request_fork:
  assumes "this_forkProviderPromise s = Some (Inr fork)" "\<not> answered_locally s req"
  shows "TenderlyProvider_request up s req = forward up s fork req"
  using assms by (auto simp: TenderlyProvider_request_def answered_locally_def)

lemma forward_error:
  assumes "fork_send up (length (calls s)) fork (rpc_method req) (params_of req) = Inl e"
  shows "fst (forward up s fork req)
         = Inl (if error_code e = Some (- 32603) then TenderlyRequestError else ForkRpcError e)"
  using assms by (simp add: forward_def params_of_def Let_def)

lemma forking_not_local: "forking_method (rpc_method req) \<Longrightarrow> \<not> answered_locally s req"
  by (auto simp: forking_method_def answered_locally_def)

lemma request_chainId:
  "rpc_method req = ''eth_chainId'' \<Longrightarrow>
   TenderlyProvider_request up s req = (Inr (Str (''0x'' @ toString16 (this_chainId s))), s)"
  by (simp add: TenderlyProvider_request_def)


lemma request_live:
  assumes "this_forkProviderPromise s = None" "\<not> forking_method (rpc_method req)"
    "\<not> answered_locally s req"
  shows "TenderlyProvider_request up s req =
           (case live_request up (length (calls s)) req of
              Inl e \<Rightarrow> Inl (LiveProviderError e) | Inr r \<Rightarrow> Inr (Str r),
            s\<lparr>calls := calls s @ [Live req]\<rparr>)"
  using assms
  by (auto simp: TenderlyProvider_request_def answered_locally_def split: sum.splits)

lemma createFork_calls: "calls (createFork up s n) = calls s @ [CreateFork n]"
  by (simp add: createFork_def Let_def split: sum.splits prod.splits)

lemma createFork_promise:
  "this_forkProviderPromise (createFork up s n)
   = Some (case api_createFork up (length (calls s)) n of
             Inl e \<Rightarrow> Inl e | Inr (fork, bn) \<Rightarrow> Inr fork)"
  by (simp add: createFork_def Let_def split: sum.splits prod.splits)


lemma request_create:
  assumes "this_forkProviderPromise s = None" "forking_method (rpc_method req)"
  shows "TenderlyProvider_request up s req =
           (case this_forkProviderPromise (createFork up s (this_chainId s)) of
              None \<Rightarrow> (Inl NoTenderlyFork, createFork up s (this_chainId s))
            | Some (Inl e) \<Rightarrow> (Inl (ForkCreationError e), createFork up s (this_chainId s))
            | Some (Inr fork) \<Rightarrow> forward up (createFork up s (this_chainId s)) fork req)"
  using assms forking_not_local [OF assms(2), of s]
  by (auto simp: TenderlyProvider_request_def answered_locally_def Let_def)

lemma fetchForkInfo_state:
  "snd (fetchForkInfo up s) = s \<or> snd (fetchForkInfo up s) = s\<lparr>calls := calls s @ [ForkInfo (the (this_forkId s))]\<rparr>"
  by (auto simp: fetchForkInfo_def split: option.splits sum.splits)

lemma forward_calls:
  "\<exists>extra. calls (snd (forward up s fork req))
            = calls s @ [ForkSend fork (rpc_method req) (params_of req)] @ extra"
  using fetchForkInfo_state [of up "s\<lparr>calls := calls s @ [ForkSend fork (rpc_method req) (params_of req)]\<rparr>"]
  by (auto simp: forward_def params_of_def Let_def split: sum.splits prod.splits)

lemma forward_promise:
  "this_forkProviderPromise (snd (forward up s fork req)) = this_forkProviderPromise s"
  using fetchForkInfo_state [of up "s\<lparr>calls := calls s @ [ForkSend fork (rpc_method req) (params_of req)]\<rparr>"]
  by (auto simp: forward_def params_of_def Let_def split: sum.splits prod.splits)

lemma forward_calls_take:
  "take (Suc (length (calls s))) (calls (snd (forward up s fork req)))
   = calls s @ [ForkSend fork (rpc_method req) (params_of req)]"
proof -
  obtain extra where "calls (snd (forward up s fork req))
            = calls s @ [ForkSend fork (rpc_method req) (params_of req)] @ extra"
    using forward_calls by blast
  then show ?thesis by simp
qed


lemma requests_before_fork:
  assumes "this_forkProviderPromise s = None" "this_blockNumber s = None"
    "list_all (\<lambda>r. \<not> forking_method (rpc_method r)) reqs"
  shows "this_forkProviderPromise (snd (TenderlyProvider_requests up s reqs)) = None
         \<and> this_blockNumber (snd (TenderlyProvider_requests up s reqs)) = None
         \<and> calls (snd (TenderlyProvider_requests up s reqs))
           = calls s @ map Live (filter (\<lambda>r. rpc_method r \<noteq> ''eth_chainId'') reqs)"
  using assms
proof (induction reqs arbitrary: s)
  case Nil
  show ?case using Nil by simp
next
  case (Cons req reqs)
  show ?case
  proof (cases "rpc_method req = ''eth_chainId''")
    case True
    have "TenderlyProvider_request up s req
          = (Inr (Str (''0x'' @ toString16 (this_chainId s))), s)"
      by (rule request_chainId [OF True])
    then show ?thesis
      using Cons.IH [of s] Cons.prems True by (simp add: split_beta)
  next
    case False
    have nl: "\<not> answered_locally s req"
      using False Cons.prems(2) by (simp add: answered_locally_def truthy_number_def)
    have nf: "\<not> forking_method (rpc_method req)"
      using Cons.prems(3) by simp
    let ?s1 = "s\<lparr>calls := calls s @ [Live req]\<rparr>"
    have "snd (TenderlyProvider_request up s req) = ?s1"
      by (simp add: request_live [OF Cons.prems(1) nf nl])
    then show ?thesis
      using Cons.IH [of ?s1] Cons.prems False by (simp add: split_beta)
  qed
qed


















text \<open>
  Claim C6. Without a fork, a request for \<open>eth_sendTransaction\<close>, \<open>evm_snapshot\<close> or
  \<open>evm_revert\<close> first creates the fork, and when the creation succeeds the request is
  sent to that fork; any other request that is not answered locally goes to the live
  provider and leaves the provider without a fork. So from a new provider, requests
  without one of the three methods never create a fork and reach the live provider only.
  Once the fork exists, every request that is not answered locally is sent to the fork.
\<close>

theorem fork_created_lazily:
  "(this_forkProviderPromise s = None \<and> forking_method (rpc_method req) \<longrightarrow>
      take (Suc (length (calls s))) (calls (snd (TenderlyProvider_request up s req)))
        = calls s @ [CreateFork (this_chainId s)]
      \<and> (api_createFork up (length (calls s)) (this_chainId s) = Inr (fork, bn) \<longrightarrow>
           this_forkProviderPromise (snd (TenderlyProvider_request up s req)) = Some (Inr fork)
           \<and> take (length (calls s) + 2) (calls (snd (TenderlyProvider_request up s req)))
             = calls s @ [CreateFork (this_chainId s),
                          ForkSend fork (rpc_method req) (params_of req)]))
   \<and> (this_forkProviderPromise s = None \<and> \<not> forking_method (rpc_method req)
        \<and> \<not> answered_locally s req \<longrightarrow>
      TenderlyProvider_request up s req
        = (case live_request up (length (calls s)) req of
             Inl e \<Rightarrow> Inl (LiveProviderError e) | Inr r \<Rightarrow> Inr (Str r),
           s\<lparr>calls := calls s @ [Live req]\<rparr>))
   \<and> (list_all (\<lambda>r. \<not> forking_method (rpc_method r)) reqs \<longrightarrow>
      this_forkProviderPromise (snd (TenderlyProvider_requests up (new_tenderly chain) reqs)) = None
      \<and> calls (snd (TenderlyProvider_requests up (new_tenderly chain) reqs))
        = map Live (filter (\<lambda>r. rpc_method r \<noteq> ''eth_chainId'') reqs))
   \<and> (this_forkProviderPromise s = Some (Inr fork) \<and> \<not> answered_locally s req \<longrightarrow>
      TenderlyProvider_request up s req = forward up s fork req
      \<and> take (Suc (length (calls s))) (calls (snd (TenderlyProvider_request up s req)))
        = calls s @ [ForkSend fork (rpc_method req) (params_of req)]
      \<and> this_forkProviderPromise (snd (TenderlyProvider_request up s req)) = Some (Inr fork))"
proof (intro conjI impI)
  assume a: "this_forkProviderPromise s = None \<and> forking_method (rpc_method req)"
  let ?s1 = "createFork up s (this_chainId s)"
  have r: "TenderlyProvider_request up s req =
           (case this_forkProviderPromise ?s1 of
              None \<Rightarrow> (Inl NoTenderlyFork, ?s1)
            | Some (Inl e) \<Rightarrow> (Inl (ForkCreationError e), ?s1)
            | Some (Inr fork) \<Rightarrow> forward up ?s1 fork req)"
    using a by (simp add: request_create)
  show "take (Suc (length (calls s))) (calls (snd (TenderlyProvider_request up s req)))
        = calls s @ [CreateFork (this_chainId s)]"
  proof (cases "this_forkProviderPromise ?s1")
    case None
    then show ?thesis by (simp add: r createFork_calls)
  next
    case (Some x)
    show ?thesis
    proof (cases x)
      case (Inl e)
      with Some show ?thesis by (simp add: r createFork_calls)
    next
      case (Inr f)
      obtain extra where "calls (snd (forward up ?s1 f req))
            = calls ?s1 @ [ForkSend f (rpc_method req) (params_of req)] @ extra"
        using forward_calls by blast
      with Some Inr show ?thesis by (simp add: r createFork_calls)
    qed
  qed
  {
    assume c: "api_createFork up (length (calls s)) (this_chainId s) = Inr (fork, bn)"
    then have p: "this_forkProviderPromise ?s1 = Some (Inr fork)"
      by (simp add: createFork_promise)
    then have rf: "TenderlyProvider_request up s req = forward up ?s1 fork req"
      by (simp add: r)
    show "this_forkProviderPromise (snd (TenderlyProvider_request up s req)) = Some (Inr fork)"
      by (simp add: rf forward_promise p)
    obtain extra where "calls (snd (forward up ?s1 fork req))
            = calls ?s1 @ [ForkSend fork (rpc_method req) (params_of req)] @ extra"
      using forward_calls by blast
    then show "take (length (calls s) + 2) (calls (snd (TenderlyProvider_request up s req)))
             = calls s @ [CreateFork (this_chainId s),
                          ForkSend fork (rpc_method req) (params_of req)]"
      by (simp add: rf createFork_calls)
  }
next
  assume "this_forkProviderPromise s = None \<and> \<not> forking_method (rpc_method req)
        \<and> \<not> answered_locally s req"
  then show "TenderlyProvider_request up s req
        = (case live_request up (length (calls s)) req of
             Inl e \<Rightarrow> Inl (LiveProviderError e) | Inr r \<Rightarrow> Inr (Str r),
           s\<lparr>calls := calls s @ [Live req]\<rparr>)"
    by (simp add: request_live)
next
  assume a: "list_all (\<lambda>r. \<not> forking_method (rpc_method r)) reqs"
  have n: "this_forkProviderPromise (new_tenderly chain) = None"
    "this_blockNumber (new_tenderly chain) = None" "calls (new_tenderly chain) = []"
    by (simp_all add: new_tenderly_def)
  from requests_before_fork [OF n(1,2) a, of up]
  show "this_forkProviderPromise (snd (TenderlyProvider_requests up (new_tenderly chain) reqs)) = None"
    and "calls (snd (TenderlyProvider_requests up (new_tenderly chain) reqs))
        = map Live (filter (\<lambda>r. rpc_method r \<noteq> ''eth_chainId'') reqs)"
    by (simp_all add: n(3))
next
  assume a: "this_forkProviderPromise s = Some (Inr fork) \<and> \<not> answered_locally s req"
  then show rf: "TenderlyProvider_request up s req = forward up s fork req"
    by (simp add: request_fork)
  show "take (Suc (length (calls s))) (calls (snd (TenderlyProvider_request up s req)))
        = calls s @ [ForkSend fork (rpc_method req) (params_of req)]"
    by (simp only: rf forward_calls_take)
  show "this_forkProviderPromise (snd (TenderlyProvider_request up s req)) = Some (Inr fork)"
    using a by (simp add: rf forward_promise)
qed


theorem fork_created_lazily_witness:
  "calls (snd (TenderlyProvider_requests up0 (new_tenderly 1)
       [rpc ''eth_call'', rpc ''eth_chainId'', rpc ''eth_getBalance'']))
     = [Live (rpc ''eth_call''), Live (rpc ''eth_getBalance'')]
   \<and> calls (snd (TenderlyProvider_request up0 (new_tenderly 1) (rpc ''evm_snapshot'')))
     = [CreateFork 1, ForkSend ''fork-1'' ''evm_snapshot'' []]
   \<and> calls (snd (TenderlyProvider_request up0 after_send (rpc ''eth_getBalance'')))
     = calls after_send @ [ForkSend ''fork-1'' ''eth_getBalance'' []]"
proof -
  have c: "calls (new_tenderly 1) = []" "this_chainId (new_tenderly 1) = 1"
    "this_forkProviderPromise (new_tenderly 1) = None"
    by (simp_all add: new_tenderly_def)
  have snap: "calls (snd (TenderlyProvider_request up0 (new_tenderly 1) (rpc ''evm_snapshot'')))
     = [CreateFork 1, ForkSend ''fork-1'' ''evm_snapshot'' []]"
    by (simp add: TenderlyProvider_request_def new_tenderly_def rpc_def forking_method_def
      truthy_number_def createFork_def up0_def forward_def Let_def params_of_def)
  have bal: "calls (snd (TenderlyProvider_request up0 after_send (rpc ''eth_getBalance'')))
     = calls after_send @ [ForkSend ''fork-1'' ''eth_getBalance'' []]"
    by (simp add: TenderlyProvider_request_def after_send_def rpc_def forking_method_def
      truthy_number_def up0_def forward_def Let_def params_of_def)
  from fork_created_lazily
    [where s = "new_tenderly 1" and up = up0 and req = "rpc ''evm_snapshot''"
       and fork = "''fork-1''" and bn = 100 and chain = 1
       and reqs = "[rpc ''eth_call'', rpc ''eth_chainId'', rpc ''eth_getBalance'']"]
  show ?thesis
    using snap bal by (simp add: rpc_def forking_method_def)
qed

text \<open>
  Claim C7. When the call forwarded to the fork fails with \<open>error.code\<close> equal to
  \<open>-32603\<close>, the request fails with the provider's own error
  (\<open>Error sending request to Tenderly\<close>); when it fails with any other error, the request
  fails with that very error. The two are different errors.
\<close>

theorem rate_limit_error_translated:
  "(this_forkProviderPromise s = Some (Inr fork) \<and> \<not> answered_locally s req
      \<and> fork_send up (length (calls s)) fork (rpc_method req) (params_of req) = Inl e
     \<longrightarrow> (error_code e = Some (- 32603)
            \<longrightarrow> fst (TenderlyProvider_request up s req) = Inl TenderlyRequestError)
         \<and> (error_code e \<noteq> Some (- 32603)
            \<longrightarrow> fst (TenderlyProvider_request up s req) = Inl (ForkRpcError e)))
   \<and> (fork_send up (length (calls s)) fork (rpc_method req) (params_of req) = Inl e
     \<longrightarrow> (error_code e = Some (- 32603)
            \<longrightarrow> fst (forward up s fork req) = Inl TenderlyRequestError)
         \<and> (error_code e \<noteq> Some (- 32603)
            \<longrightarrow> fst (forward up s fork req) = Inl (ForkRpcError e)))
   \<and> TenderlyRequestError \<noteq> ForkRpcError e"
proof (intro conjI impI)
  show "TenderlyRequestError \<noteq> ForkRpcError e" by simp
next
  assume a: "this_forkProviderPromise s = Some (Inr fork) \<and> \<not> answered_locally s req
      \<and> fork_send up (length (calls s)) fork (rpc_method req) (params_of req) = Inl e"
  then have eq: "TenderlyProvider_request up s req = forward up s fork req"
    by (simp add: request_fork)
  {
    assume "error_code e = Some (- 32603)"
    then show "fst (TenderlyProvider_request up s req) = Inl TenderlyRequestError"
      using a forward_error [of up s fork req e] by (simp add: eq)
  }
  {
    assume "error_code e \<noteq> Some (- 32603)"
    then show "fst (TenderlyProvider_request up s req) = Inl (ForkRpcError e)"
      using a forward_error [of up s fork req e] by (simp add: eq)
  }
next
  assume a: "fork_send up (length (calls s)) fork (rpc_method req) (params_of req) = Inl e"
  {
    assume "error_code e = Some (- 32603)"
    then show "fst (forward up s fork req) = Inl TenderlyRequestError"
      using forward_error [OF a] by simp
  }
  {
    assume "error_code e \<noteq> Some (- 32603)"
    then show "fst (forward up s fork req) = Inl (ForkRpcError e)"
      using forward_error [OF a] by simp
  }
qed


theorem rate_limit_error_translated_witness:
  "fst (TenderlyProvider_request up0 after_send (rpc ''eth_call'')) = Inl TenderlyRequestError
   \<and> fst (TenderlyProvider_request up0 after_send (rpc ''eth_estimateGas''))
     = Inl (ForkRpcError \<lparr>error_code = Some 3, error_text = ''execution reverted''\<rparr>)"
  using rate_limit_error_translated
    [of after_send "''fork-1''" "rpc ''eth_call''" up0
        "\<lparr>error_code = Some (- 32603), error_text = ''rate limit''\<rparr>"]
    rate_limit_error_translated
    [of after_send "''fork-1''" "rpc ''eth_estimateGas''" up0
        "\<lparr>error_code = Some 3, error_text = ''execution reverted''\<rparr>"]
  by (simp add: after_send_def rpc_def answered_locally_def up0_def params_of_def)


subsection \<open>Value normalisation\<close>

lemma digit_val_zero_iff: "isHexDigit c \<Longrightarrow> digit_val c = 0 \<longleftrightarrow> c = CHR ''0''"
  by (auto simp: isHexDigit_def digit_val_def)

lemma isDec_isHex: "isDecDigit c \<Longrightarrow> isHexDigit c"
  by (auto simp: isHexDigit_def isDecDigit_def)

lemma foldl_hex_zero:
  "foldl (\<lambda>a c. 16 * a + digit_val c) a ds = 0 \<longleftrightarrow> a = 0 \<and> (\<forall>c\<in>set ds. digit_val c = 0)"
  by (induction ds arbitrary: a) auto

lemma hex_val_zero_iff:
  "list_all isHexDigit ds \<Longrightarrow> hex_val ds = 0 \<longleftrightarrow> dropWhile (\<lambda>c. c = CHR ''0'') ds = []"
  by (auto simp: hex_val_def foldl_hex_zero list_all_iff digit_val_zero_iff)

lemma hex_val_Cons0: "hex_val (CHR ''0'' # ds) = hex_val ds"
  by (simp add: hex_val_def digit_val_def)

lemma hex_val_dropWhile: "hex_val (dropWhile (\<lambda>c. c = CHR ''0'') ds) = hex_val ds"
  by (induction ds) (simp_all add: hex_val_Cons0)

lemma hex_val_snoc: "hex_val (ds @ [c]) = 16 * hex_val ds + digit_val c"
  by (simp add: hex_val_def)

lemma dropWhile_trim:
  "dropWhile (\<lambda>c. c = CHR ''0'') (trim_zero_bytes ds) = dropWhile (\<lambda>c. c = CHR ''0'') ds"
  by (induction ds rule: trim_zero_bytes.induct) simp_all

lemma hex_val_trim: "hex_val (trim_zero_bytes ds) = hex_val ds"
  by (induction ds rule: trim_zero_bytes.induct) (simp_all add: hex_val_Cons0)

lemma trim_Nil_iff: "trim_zero_bytes ds = [] \<longleftrightarrow> ds = []"
  by (induction ds rule: trim_zero_bytes.induct) simp_all

lemma isHex_trim: "list_all isHexDigit ds \<Longrightarrow> list_all isHexDigit (trim_zero_bytes ds)"
  by (induction ds rule: trim_zero_bytes.induct) simp_all

lemma toHex_unsigned_0x:
  "ds \<noteq> [] \<Longrightarrow> toHex_unsigned (''0x'' @ ds) = ''0x'' @ trim_zero_bytes (pad_even ds)"
  by (simp add: toHex_unsigned_def pad_even_def)

lemma toHex_unsigned_bare:
  "ds \<noteq> [] \<Longrightarrow> take 2 ds \<noteq> ''0x'' \<Longrightarrow>
   toHex_unsigned ds = ''0x'' @ trim_zero_bytes (pad_even ds)"
  by (simp add: toHex_unsigned_def pad_even_def)

lemma replace_leading_zeros_0x:
  "replace_leading_zeros (''0x'' @ ds) = ''0x'' @ dropWhile (\<lambda>c. c = CHR ''0'') ds"
  by (cases ds) (simp_all add: replace_leading_zeros_def)

lemma isZero_digits:
  assumes "list_all isHexDigit ds"
  shows "isZero (''0x'' @ trim_zero_bytes (pad_even ds))
         = Some (dropWhile (\<lambda>c. c = CHR ''0'') ds = [])"
proof -
  let ?t = "trim_zero_bytes (pad_even ds)"
  have hexp: "list_all isHexDigit (pad_even ds)"
    using assms by (simp add: pad_even_def isHexDigit_def)
  have ht: "list_all isHexDigit ?t"
    by (rule isHex_trim [OF hexp])
  have dw: "dropWhile (\<lambda>c. c = CHR ''0'') ?t = dropWhile (\<lambda>c. c = CHR ''0'') ds"
    by (simp add: dropWhile_trim pad_even_def)
  have "isZero (''0x'' @ ?t) = Some (hex_val ?t = 0)"
    using ht by (simp add: isZero_def unsigned_part_def)
  also have "(hex_val ?t = 0) = (dropWhile (\<lambda>c. c = CHR ''0'') ds = [])"
    using hex_val_zero_iff [OF ht] by (simp only: dw)
  finally show ?thesis .
qed

lemma formatValue_digits:
  assumes "list_all isHexDigit ds"
    and bn: "BigNumber_from v = Some (''0x'' @ trim_zero_bytes (pad_even ds))"
  shows "formatValue v = Some (''0x'' @ canonical ds)"
proof -
  let ?t = "trim_zero_bytes (pad_even ds)"
  have dw: "dropWhile (\<lambda>c. c = CHR ''0'') ?t = dropWhile (\<lambda>c. c = CHR ''0'') ds"
    by (simp add: dropWhile_trim pad_even_def)
  have z: "isZero (''0x'' @ ?t) = Some (dropWhile (\<lambda>c. c = CHR ''0'') ds = [])"
    by (rule isZero_digits [OF assms(1)])
  have f: "formatValue v
           = (if dropWhile (\<lambda>c. c = CHR ''0'') ds = [] then Some ''0x0''
              else Some (replace_leading_zeros (''0x'' @ ?t)))"
    by (simp only: formatValue_def bn z option.case toHexString_def)
  show ?thesis
  proof (cases "dropWhile (\<lambda>c. c = CHR ''0'') ds = []")
    case True
    have c: "canonical ds = ''0''"
      unfolding canonical_def Let_def using True by (rule if_P)
    have "formatValue v = Some ''0x0''"
      unfolding f using True by (rule if_P)
    then show ?thesis by (simp add: c)
  next
    case False
    have c: "canonical ds = dropWhile (\<lambda>c. c = CHR ''0'') ds"
      unfolding canonical_def Let_def using False by (rule if_not_P)
    have "formatValue v = Some (replace_leading_zeros (''0x'' @ ?t))"
      unfolding f using False by (rule if_not_P)
    also have "replace_leading_zeros (''0x'' @ ?t) = ''0x'' @ canonical ds"
      unfolding replace_leading_zeros_0x dw c ..
    finally show ?thesis .
  qed
qed

lemma hex_digit_nth:
  "d < 16 \<Longrightarrow> isHexDigit (''0123456789abcdef'' ! d) \<and> digit_val (''0123456789abcdef'' ! d) = d
     \<and> (''0123456789abcdef'' ! d = CHR ''0'' \<longleftrightarrow> d = 0) \<and> ''0123456789abcdef'' ! d \<noteq> CHR ''x''
     \<and> ''0123456789abcdef'' ! d \<noteq> CHR ''-''"
proof -
  assume "d < 16"
  then have "d \<in> set [0..<16]" by simp
  then show ?thesis
    by (simp add: upt_rec) (elim disjE; simp add: digit_val_def isHexDigit_def)
qed

lemma toString16_props:
  "list_all isHexDigit (toString16 n) \<and> toString16 n \<noteq> [] \<and> hex_val (toString16 n) = n
   \<and> (hd (toString16 n) = CHR ''0'' \<longleftrightarrow> n = 0) \<and> CHR ''x'' \<notin> set (toString16 n)
   \<and> hd (toString16 n) \<noteq> CHR ''-''"
proof (induction n rule: toString16.induct)
  case (1 n)
  show ?case
  proof (cases "n < 16")
    case True
    then show ?thesis
      using hex_digit_nth [of n] by (auto simp: toString16.simps [of n] hex_val_def)
  next
    case False
    then have pos: "n div 16 \<noteq> 0" by simp
    have m: "n mod 16 < 16" by simp
    from False 1 [OF False] pos show ?thesis
      using hex_digit_nth [OF m]
      by (auto simp: toString16.simps [of n] hex_val_snoc)
  qed
qed


lemma formatValue_hex:
  assumes "ds \<noteq> []" "list_all isHexDigit ds"
  shows "formatValue (''0x'' @ ds) = Some (''0x'' @ canonical ds)"
proof -
  have lit: "isHexLiteral (''0x'' @ ds)"
    using assms by (simp add: isHexLiteral_def)
  have bn: "BigNumber_from (''0x'' @ ds) = Some (''0x'' @ trim_zero_bytes (pad_even ds))"
    using lit toHex_unsigned_0x [OF assms(1)]
    by (simp add: BigNumber_from_def unsigned_part_def toHex_def)
  show ?thesis
    by (rule formatValue_digits [OF assms(2) bn])
qed

lemma isDecDigit_not_sign:
  "isDecDigit c \<Longrightarrow> c \<noteq> CHR ''-'' \<and> c \<noteq> CHR ''x'' \<and> c \<noteq> CHR ''X''"
  by (auto simp: isDecDigit_def)

lemma take2_0X: "take 2 h = ''0X'' \<Longrightarrow> CHR ''X'' \<in> set h"
proof -
  assume "take 2 h = ''0X''"
  then have "CHR ''X'' \<in> set (take 2 h)" by simp
  then show ?thesis by (rule in_set_takeD)
qed

lemma take2_0x: "take 2 h = ''0x'' \<Longrightarrow> CHR ''x'' \<in> set h"
proof -
  assume "take 2 h = ''0x''"
  then have "CHR ''x'' \<in> set (take 2 h)" by simp
  then show ?thesis by (rule in_set_takeD)
qed

lemma formatValue_dec:
  assumes "ds \<noteq> []" "list_all isDecDigit ds"
  shows "formatValue ds = Some (''0x'' @ toString16 (dec_val ds))"
proof -
  let ?h = "toString16 (dec_val ds)"
  have nox: "CHR ''x'' \<notin> set ds" "CHR ''X'' \<notin> set ds"
    using assms(2) isDecDigit_not_sign by (auto simp: list_all_iff)
  have nohex: "\<not> isHexLiteral ds"
    using nox take2_0x [of ds] take2_0X [of ds] by (auto simp: isHexLiteral_def)
  obtain c cs where ds: "ds = c # cs" using assms(1) by (cases ds) auto
  have "c \<noteq> CHR ''-''"
    using assms(2) isDecDigit_not_sign [of c] by (simp add: ds)
  then have noneg: "unsigned_part ds = ds" "\<not> is_negative ds"
    by (simp_all add: ds unsigned_part_def is_negative_def)
  have p: "list_all isHexDigit ?h" "?h \<noteq> []" "CHR ''x'' \<notin> set ?h" "hd ?h \<noteq> CHR ''-''"
      "hd ?h = CHR ''0'' \<longleftrightarrow> dec_val ds = 0" "hex_val ?h = dec_val ds"
    using toString16_props [of "dec_val ds"] by simp_all
  have bare: "take 2 ?h \<noteq> ''0x''"
    using p(3) take2_0x [of ?h] by blast
  obtain a as where h: "?h = a # as" using p(2) by (cases ?h) auto
  have "a \<noteq> CHR ''-''" using p(4) by (simp add: h)
  then have "toHex ?h = toHex_unsigned ?h"
    by (simp add: h toHex_def)
  then have th: "toHex ?h = ''0x'' @ trim_zero_bytes (pad_even ?h)"
    using toHex_unsigned_bare [OF p(2) bare] by simp
  have lit: "isDecLiteral ds"
    using assms by (simp add: isDecLiteral_def)
  have bn: "BigNumber_from ds = Some (''0x'' @ trim_zero_bytes (pad_even ?h))"
    using nohex noneg lit th by (simp add: BigNumber_from_def)
  have can: "canonical ?h = ?h"
  proof (cases "dec_val ds = 0")
    case True
    then show ?thesis by (simp add: toString16.simps [of 0] canonical_def)
  next
    case False
    then have "a \<noteq> CHR ''0''" using p(5) by (simp add: h)
    then show ?thesis by (simp add: h canonical_def)
  qed
  have "formatValue ds = Some (''0x'' @ canonical ?h)"
    by (rule formatValue_digits [OF p(1) bn])
  then show ?thesis by (simp only: can)
qed

lemma no_leading_zero_canonical: "no_leading_zero (canonical ds)"
proof (cases "dropWhile (\<lambda>c. c = CHR ''0'') ds")
  case Nil
  then show ?thesis by (simp add: canonical_def no_leading_zero_def)
next
  case (Cons a as)
  then have "a \<noteq> CHR ''0''" using hd_dropWhile [of "\<lambda>c. c = CHR ''0''" ds] by simp
  with Cons show ?thesis by (simp add: canonical_def no_leading_zero_def)
qed

lemma hex_val_canonical: "hex_val (canonical ds) = hex_val ds"
proof (cases "dropWhile (\<lambda>c. c = CHR ''0'') ds = []")
  case True
  then have "canonical ds = ''0''"
    unfolding canonical_def Let_def by (rule if_P)
  moreover have "hex_val ''0'' = 0"
    by (simp add: hex_val_def digit_val_def)
  moreover have "hex_val ds = hex_val []"
    using hex_val_dropWhile [of ds] by (simp only: True)
  moreover have "hex_val [] = 0"
    by (simp add: hex_val_def)
  ultimately show ?thesis by simp
next
  case False
  then have "canonical ds = dropWhile (\<lambda>c. c = CHR ''0'') ds"
    unfolding canonical_def Let_def by (rule if_not_P)
  then show ?thesis by (simp only: hex_val_dropWhile)
qed

lemma value_0x00: "formatValue ''0x00'' = Some ''0x0''"
  using formatValue_hex [of "''00''"] by (simp add: isHexDigit_def canonical_def)

lemma value_0x: "formatValue ''0x'' = None"
  by (simp add: formatValue_def BigNumber_from_def isHexLiteral_def isDecLiteral_def
      unsigned_part_def isDecDigit_def)

subsection \<open>The batch encoder\<close>

text \<open>
  Claim C3. For a recording of exactly one transaction, \<open>submitTransactions\<close> sends
  and \<open>copyTransactionData\<close> wraps that transaction's encoded call as it is. For two
  or more, both pass one call: \<open>encodeMulti\<close> of the encoded calls and the fixed
  multi-send address. The encoded calls are as many as the recorded transactions, and
  the one at each position is the encoding of the transaction recorded at that position.
\<close>

theorem batch_encoding:
  "(length transactions = 1 \<longrightarrow>
      hd (snd (submitTransactions es em wp transactions))
        = WrappingProvider_request ''eth_sendTransaction'' [es (input (hd transactions))]
      \<and> copyTransactionData es em wrap c transactions
        = wrap (es (input (hd transactions))) c)
   \<and> (2 \<le> length transactions \<longrightarrow>
      hd (snd (submitTransactions es em wp transactions))
        = WrappingProvider_request ''eth_sendTransaction''
            [em (map (\<lambda>t. es (input t)) transactions) MULTI_SEND_ADDRESS]
      \<and> copyTransactionData es em wrap c transactions
        = wrap (em (map (\<lambda>t. es (input t)) transactions) MULTI_SEND_ADDRESS) c)
   \<and> length (map (\<lambda>t. es (input t)) transactions) = length transactions
   \<and> (i < length transactions \<longrightarrow>
      map (\<lambda>t. es (input t)) transactions ! i = es (input (transactions ! i)))"
proof (intro conjI impI)
  assume one: "length transactions = 1"
  then obtain t where t: "transactions = [t]"
    by (cases transactions) auto
  show "hd (snd (submitTransactions es em wp transactions))
        = WrappingProvider_request ''eth_sendTransaction'' [es (input (hd transactions))]"
    by (simp add: submitTransactions_def t Let_def split: sum.splits)
  show "copyTransactionData es em wrap c transactions
        = wrap (es (input (hd transactions))) c"
    by (simp add: copyTransactionData_def t Let_def)
next
  assume two: "2 \<le> length transactions"
  then have ne: "length transactions \<noteq> 1" by simp
  show "hd (snd (submitTransactions es em wp transactions))
        = WrappingProvider_request ''eth_sendTransaction''
            [em (map (\<lambda>t. es (input t)) transactions) MULTI_SEND_ADDRESS]"
    using ne by (simp add: submitTransactions_def Let_def split: sum.splits)
  show "copyTransactionData es em wrap c transactions
        = wrap (em (map (\<lambda>t. es (input t)) transactions) MULTI_SEND_ADDRESS) c"
    using ne by (simp add: copyTransactionData_def Let_def)
next
  show "length (map (\<lambda>t. es (input t)) transactions) = length transactions"
    by simp
next
  assume "i < length transactions"
  then show "map (\<lambda>t. es (input t)) transactions ! i = es (input (transactions ! i))"
    by simp
qed

theorem batch_encoding_witness:
  "submitTransactions encodeSingle0 encodeMulti0 wrappingProvider0 [tx ''a'']
     = (Inr ''0xbatch'',
        [WrappingProvider_request ''eth_sendTransaction''
           [\<lparr>mt_to = ''0xdapp'', mt_value = ''0x00'', mt_data = ''a''\<rparr>],
         Dispatch_SUBMIT_TRANSACTIONS ''0xbatch''])
   \<and> submitTransactions encodeSingle0 encodeMulti0 wrappingProvider0 [tx ''a'', tx ''b'']
     = (Inr ''0xbatch'',
        [WrappingProvider_request ''eth_sendTransaction''
           [encodeMulti0 [\<lparr>mt_to = ''0xdapp'', mt_value = ''0x00'', mt_data = ''a''\<rparr>,
                          \<lparr>mt_to = ''0xdapp'', mt_value = ''0x00'', mt_data = ''b''\<rparr>]
              ''0xA238CBeb142c10Ef7Ad8442C6D1f9E89e07e7761''],
         Dispatch_SUBMIT_TRANSACTIONS ''0xbatch''])"
  using batch_encoding [of "[tx ''a'']" encodeSingle0 encodeMulti0 wrappingProvider0 "\<lambda>m c. m" connection0 0]
    batch_encoding [of "[tx ''a'', tx ''b'']" encodeSingle0 encodeMulti0 wrappingProvider0 "\<lambda>m c. m" connection0 1]
  by (simp add: submitTransactions_def wrappingProvider0_def encodeSingle0_def tx_def
      MULTI_SEND_ADDRESS_def Let_def)


subsection \<open>Re-fork and re-run\<close>

lemma sends_trace_Cons:
  "sends_trace es c (t # ts)
   = Call_request ''eth_sendTransaction''
       (send_params (es (input t))
          (case formatValue (mt_value (es (input t))) of Some v \<Rightarrow> v | None \<Rightarrow> []) c)
     # Awaited # sends_trace es c ts"
  by (simp add: sends_trace_def sends_of_def)

lemma rerun_loop_trace:
  "rerun_loop api es c txs p = (None, effects, p') \<Longrightarrow> effects = sends_trace es c txs"
proof (induction txs arbitrary: p effects p')
  case Nil
  then show ?case by (simp add: sends_trace_def sends_of_def)
next
  case (Cons t ts)
  from Cons.prems obtain v where v: "formatValue (mt_value (es (input t))) = Some v"
    by (cases "formatValue (mt_value (es (input t)))") (simp_all add: Let_def)
  let ?params = "send_params (es (input t)) v c"
  obtain a p1 where r: "provider_request api p ''eth_sendTransaction'' ?params = (a, p1)"
    by (cases "provider_request api p ''eth_sendTransaction'' ?params")
  from Cons.prems v r obtain x where a: "a = Inr x"
    by (cases a) (simp_all add: Let_def)
  obtain err effs p2 where l: "rerun_loop api es c ts p1 = (err, effs, p2)"
    by (cases "rerun_loop api es c ts p1")
  from Cons.prems v r a l have "err = None"
    and e: "effects = Call_request ''eth_sendTransaction'' ?params # Awaited # effs"
    by (simp_all add: Let_def)
  with l Cons.IH [of p1 effs p2] have "effs = sends_trace es c ts" by simp
  with e v show ?case by (simp add: sends_trace_Cons)
qed

lemma rerun_loop_completes:
  assumes "\<forall>p params. \<not> isl (fst (provider_request api p ''eth_sendTransaction'' params))"
    "list_all (\<lambda>t. formatValue (mt_value (es (input t))) \<noteq> None) txs"
  shows "fst (rerun_loop api es c txs p) = None"
  using assms(2)
proof (induction txs arbitrary: p)
  case Nil
  show ?case by simp
next
  case (Cons t ts)
  from Cons.prems obtain v where v: "formatValue (mt_value (es (input t))) = Some v"
    by auto
  let ?params = "send_params (es (input t)) v c"
  obtain a p1 where r: "provider_request api p ''eth_sendTransaction'' ?params = (a, p1)"
    by (cases "provider_request api p ''eth_sendTransaction'' ?params")
  have "\<not> isl (fst (provider_request api p ''eth_sendTransaction'' ?params))"
    using assms(1) by blast
  with r obtain x where a: "a = Inr x"
    by (cases a) simp_all
  from Cons.prems have "fst (rerun_loop api es c ts p1) = None"
    by (intro Cons.IH) simp
  with v r a show ?case
    by (simp add: Let_def split_beta)
qed


lemma filter_sends_trace:
  "filter is_send (sends_trace es c txs)
   = map (Call_request ''eth_sendTransaction'') (sends_of es c txs)"
  by (induction txs) (simp_all add: sends_trace_def sends_of_def is_send_def)

lemma reforkAndRerun_effects:
  assumes n: "fst (reforkAndRerun api es c allTransactions newTransactions p) = None"
  shows "allTransactions \<noteq> []
         \<and> fst (snd (reforkAndRerun api es c allTransactions newTransactions p))
           = Dispatch_REMOVE_TRANSACTION (input_id (input (hd allTransactions)))
             # Call_refork # Awaited # sends_trace es c newTransactions"
proof -
  from n obtain first others where all: "allTransactions = first # others"
    by (cases allTransactions) (simp_all add: reforkAndRerun_def)
  from n have fp: "is_ForkProvider api"
    by (auto simp: reforkAndRerun_def all Let_def split: if_splits)
  obtain a p1 where r: "provider_refork api p = (a, p1)"
    by (cases "provider_refork api p")
  from n obtain x where a: "a = Inr x"
    by (cases a) (simp_all add: reforkAndRerun_def all fp r Let_def)
  obtain err effs p2 where l: "rerun_loop api es c newTransactions p1 = (err, effs, p2)"
    by (cases "rerun_loop api es c newTransactions p1")
  from n have "err = None"
    by (simp add: reforkAndRerun_def all fp r a l Let_def)
  with l have effs: "effs = sends_trace es c newTransactions"
    using rerun_loop_trace [of api es c newTransactions p1 effs p2] by simp
  show ?thesis
    by (simp add: reforkAndRerun_def all fp r a l effs Let_def)
qed

lemma rerun_loop_values:
  "fst (rerun_loop api es c txs p) = None \<Longrightarrow>
   list_all (\<lambda>t. formatValue (mt_value (es (input t))) \<noteq> None) txs"
proof (induction txs arbitrary: p)
  case Nil
  show ?case by simp
next
  case (Cons t ts)
  from Cons.prems obtain v where v: "formatValue (mt_value (es (input t))) = Some v"
    by (cases "formatValue (mt_value (es (input t)))") (simp_all add: Let_def)
  let ?params = "send_params (es (input t)) v c"
  obtain a p1 where r: "provider_request api p ''eth_sendTransaction'' ?params = (a, p1)"
    by (cases "provider_request api p ''eth_sendTransaction'' ?params")
  from Cons.prems v r obtain x where a: "a = Inr x"
    by (cases a) (simp_all add: Let_def)
  from Cons.prems v r a have "fst (rerun_loop api es c ts p1) = None"
    by (simp add: Let_def split_beta)
  from Cons.IH [OF this] v show ?case by simp
qed

lemma reforkAndRerun_values:
  assumes n: "fst (reforkAndRerun api es c allTransactions newTransactions p) = None"
  shows "list_all (\<lambda>t. formatValue (mt_value (es (input t))) \<noteq> None) newTransactions"
proof -
  from n obtain first others where all: "allTransactions = first # others"
    by (cases allTransactions) (simp_all add: reforkAndRerun_def)
  from n have fp: "is_ForkProvider api"
    by (auto simp: reforkAndRerun_def all Let_def split: if_splits)
  obtain a p1 where r: "provider_refork api p = (a, p1)"
    by (cases "provider_refork api p")
  from n obtain x where a: "a = Inr x"
    by (cases a) (simp_all add: reforkAndRerun_def all fp r Let_def)
  from n have "fst (rerun_loop api es c newTransactions p1) = None"
    by (simp add: reforkAndRerun_def all fp r a Let_def split_beta)
  then show ?thesis by (rule rerun_loop_values)
qed

lemma send_values_sends:
  "list_all (\<lambda>t. formatValue (mt_value (es (input t))) \<noteq> None) txs \<Longrightarrow>
   map send_values (map (Call_request ''eth_sendTransaction'') (sends_of es c txs))
   = map (\<lambda>t. [formatValue (mt_value (es (input t)))]) txs"
  by (induction txs) (auto simp: sends_of_def send_values_def send_params_def)

lemma reforkAndRerun_completes:
  assumes "allTransactions \<noteq> []" "provider_never_rejects api"
    "list_all (\<lambda>t. formatValue (mt_value (es (input t))) \<noteq> None) newTransactions"
  shows "fst (reforkAndRerun api es c allTransactions newTransactions p) = None"
proof -
  from assms(1) obtain first others where all: "allTransactions = first # others"
    by (cases allTransactions) auto
  from assms(2) have fp: "is_ForkProvider api"
    and rf: "\<not> isl (fst (provider_refork api p))"
    and rq: "\<forall>p params. \<not> isl (fst (provider_request api p ''eth_sendTransaction'' params))"
    by (simp_all add: provider_never_rejects_def)
  obtain x p1 where r: "provider_refork api p = (Inr x, p1)"
    using rf by (cases "provider_refork api p"; cases "fst (provider_refork api p)") auto
  have "fst (rerun_loop api es c newTransactions p1) = None"
    using rq assms(3) by (intro rerun_loop_completes) simp_all
  then show ?thesis
    by (simp add: reforkAndRerun_def all fp r Let_def split_beta)
qed

lemma rerun_three:
  "reforkAndRerun api0 encodeSingle0 connection0 [tx ''a'', tx ''b'', tx ''c'']
       [tx ''b'', tx ''c''] 7
   = (None,
      [Dispatch_REMOVE_TRANSACTION ''a'', Call_refork, Awaited,
       send0 ''b'', Awaited, send0 ''c'', Awaited],
      2)"
  by (simp add: reforkAndRerun_def api0_def encodeSingle0_def tx_def connection0_def
      send0_def send_params_def value_0x00 Let_def)

text \<open>
  Claim C4, as the code has it. Whenever \<open>reforkAndRerun\<close> runs to its end without an
  error, the recording was not empty and the effects are, in this order: the dispatch
  of \<open>REMOVE_TRANSACTION\<close> for the first of all transactions, which leaves the ledger
  empty; the call of \<open>refork\<close>, awaited; and then for each of the new transactions
  (those not yet submitted), in their recorded order, one \<open>eth_sendTransaction\<close>
  request, awaited before the next is issued. So the sends are those of the new
  transactions, exactly as many as there are new transactions.
\<close>

theorem reforkAndRerun_replays_in_order:
  "fst (reforkAndRerun api es c allTransactions newTransactions p) = None \<longrightarrow>
     allTransactions \<noteq> []
     \<and> hd (fst (snd (reforkAndRerun api es c allTransactions newTransactions p)))
       = Dispatch_REMOVE_TRANSACTION (input_id (input (hd allTransactions)))
     \<and> reduce (hd (fst (snd (reforkAndRerun api es c allTransactions newTransactions p))))
         allTransactions = []
     \<and> fst (snd (reforkAndRerun api es c allTransactions newTransactions p))
       = Dispatch_REMOVE_TRANSACTION (input_id (input (hd allTransactions)))
         # Call_refork # Awaited # sends_trace es c newTransactions
     \<and> filter is_send (fst (snd (reforkAndRerun api es c allTransactions newTransactions p)))
       = map (Call_request ''eth_sendTransaction'') (sends_of es c newTransactions)
     \<and> length (filter is_send
          (fst (snd (reforkAndRerun api es c allTransactions newTransactions p))))
       = length newTransactions"
proof
  assume n: "fst (reforkAndRerun api es c allTransactions newTransactions p) = None"
  let ?effects = "fst (snd (reforkAndRerun api es c allTransactions newTransactions p))"
  from reforkAndRerun_effects [OF n]
  have ne: "allTransactions \<noteq> []"
    and tr: "?effects = Dispatch_REMOVE_TRANSACTION (input_id (input (hd allTransactions)))
             # Call_refork # Awaited # sends_trace es c newTransactions"
    by simp_all
  have h: "hd ?effects = Dispatch_REMOVE_TRANSACTION (input_id (input (hd allTransactions)))"
    by (simp add: tr)
  from ne obtain first others where all: "allTransactions = first # others"
    by (cases allTransactions) auto
  have emptied: "reduce (hd ?effects) allTransactions = []"
    unfolding h by (simp add: reduce_def REMOVE_TRANSACTION_def all)
  have fs: "filter is_send ?effects
            = map (Call_request ''eth_sendTransaction'') (sends_of es c newTransactions)"
    unfolding tr by (simp add: filter_sends_trace is_send_def)
  have len: "length (filter is_send ?effects) = length newTransactions"
    unfolding fs by (simp add: sends_of_def)
  from ne h emptied tr fs len
  show "allTransactions \<noteq> []
     \<and> hd ?effects = Dispatch_REMOVE_TRANSACTION (input_id (input (hd allTransactions)))
     \<and> reduce (hd ?effects) allTransactions = []
     \<and> ?effects = Dispatch_REMOVE_TRANSACTION (input_id (input (hd allTransactions)))
         # Call_refork # Awaited # sends_trace es c newTransactions
     \<and> filter is_send ?effects
       = map (Call_request ''eth_sendTransaction'') (sends_of es c newTransactions)
     \<and> length (filter is_send ?effects) = length newTransactions"
    by (intro conjI)
qed

theorem reforkAndRerun_replays_in_order_witness:
  "fst (reforkAndRerun api0 encodeSingle0 connection0 [tx ''a'', tx ''b'', tx ''c'']
          [tx ''b'', tx ''c''] 7) = None
   \<and> reduce (hd (fst (snd (reforkAndRerun api0 encodeSingle0 connection0
          [tx ''a'', tx ''b'', tx ''c''] [tx ''b'', tx ''c''] 7))))
        [tx ''a'', tx ''b'', tx ''c''] = []
   \<and> fst (snd (reforkAndRerun api0 encodeSingle0 connection0
          [tx ''a'', tx ''b'', tx ''c''] [tx ''b'', tx ''c''] 7))
     = [Dispatch_REMOVE_TRANSACTION ''a'', Call_refork, Awaited,
        send0 ''b'', Awaited, send0 ''c'', Awaited]
   \<and> length (filter is_send (fst (snd (reforkAndRerun api0 encodeSingle0 connection0
          [tx ''a'', tx ''b'', tx ''c''] [tx ''b'', tx ''c''] 7)))) = 2"
proof -
  have n: "fst (reforkAndRerun api0 encodeSingle0 connection0 [tx ''a'', tx ''b'', tx ''c'']
                  [tx ''b'', tx ''c''] 7) = None"
    by (simp add: rerun_three)
  have e: "fst (snd (reforkAndRerun api0 encodeSingle0 connection0
             [tx ''a'', tx ''b'', tx ''c''] [tx ''b'', tx ''c''] 7))
           = [Dispatch_REMOVE_TRANSACTION ''a'', Call_refork, Awaited,
              send0 ''b'', Awaited, send0 ''c'', Awaited]"
    by (simp add: rerun_three)
  note t = reforkAndRerun_replays_in_order
    [of api0 encodeSingle0 connection0 "[tx ''a'', tx ''b'', tx ''c'']" "[tx ''b'', tx ''c'']" 7,
     THEN mp, OF n]
  from t have r: "reduce (hd (fst (snd (reforkAndRerun api0 encodeSingle0 connection0
          [tx ''a'', tx ''b'', tx ''c''] [tx ''b'', tx ''c''] 7))))
        [tx ''a'', tx ''b'', tx ''c''] = []"
    by (elim conjE)
  from t have l: "length (filter is_send (fst (snd (reforkAndRerun api0 encodeSingle0
          connection0 [tx ''a'', tx ''b'', tx ''c''] [tx ''b'', tx ''c''] 7))))
        = length [tx ''b'', tx ''c'']"
    by (elim conjE)
  from l have l2: "length (filter is_send (fst (snd (reforkAndRerun api0 encodeSingle0
          connection0 [tx ''a'', tx ''b'', tx ''c''] [tx ''b'', tx ''c''] 7)))) = 2"
    by simp
  from n r e l2 show ?thesis by (intro conjI)
qed


text \<open>
  The claim C4 speaks of every recorded send, and of exactly K sends with no condition.
  The loop runs over the new transactions only: of three recorded transactions, the
  first of them submitted before, two are sent again. And a value that \<open>formatValue\<close>
  cannot read stops the loop, with an error thrown and no call rejected: with three new
  transactions and the value \<open>0x\<close> on the second, one send is issued.
\<close>

theorem rerun_skips_submitted:
  "reforkAndRerun api0 encodeSingle0 connection0 [tx ''a'', tx ''b'', tx ''c'']
       [tx ''b'', tx ''c''] 7
   = (None,
      [Dispatch_REMOVE_TRANSACTION ''a'', Call_refork, Awaited,
       send0 ''b'', Awaited, send0 ''c'', Awaited],
      2)
   \<and> length (filter is_send (fst (snd
        (reforkAndRerun api0 encodeSingle0 connection0 [tx ''a'', tx ''b'', tx ''c'']
           [tx ''b'', tx ''c''] 7)))) = 2
   \<and> length [tx ''a'', tx ''b'', tx ''c''] = 3
   \<and> reforkAndRerun api0 encodeSingle1 connection0 [tx ''a'', tx ''b'', tx ''c'']
       [tx ''a'', tx ''b'', tx ''c''] 7
   = (Some InvalidBigNumberString,
      [Dispatch_REMOVE_TRANSACTION ''a'', Call_refork, Awaited, send0 ''a'', Awaited],
      1)"
proof -
  have bad: "reforkAndRerun api0 encodeSingle1 connection0 [tx ''a'', tx ''b'', tx ''c'']
       [tx ''a'', tx ''b'', tx ''c''] 7
   = (Some InvalidBigNumberString,
      [Dispatch_REMOVE_TRANSACTION ''a'', Call_refork, Awaited, send0 ''a'', Awaited],
      1)"
    by (simp add: reforkAndRerun_def api0_def encodeSingle1_def tx_def connection0_def
        send0_def send_params_def value_0x00 value_0x Let_def)
  show ?thesis
    unfolding rerun_three bad by (simp add: is_send_def send0_def)
qed


subsection \<open>Value normalisation of the replayed sends\<close>

text \<open>
  Claim C8, as the code has it. \<open>formatValue\<close> gives \<open>0x0\<close> for \<open>0x00\<close> and for
  \<open>0x0000\<close>, and \<open>0xa0\<close> for \<open>0x00a0\<close>. For every value written as \<open>0x\<close> and hex
  digits, the result is \<open>0x\<close> and the same digits without their leading zeros (a
  single \<open>0\<close> for zero); for every value written in decimal digits, it is \<open>0x\<close> and
  the digits of the value in base 16. In both cases the digits of the result have no
  leading zero and denote the value that was given. The values that pass through
  \<open>formatValue\<close> are those of the sends of \<open>reforkAndRerun\<close>: when it runs to its
  end, the value of each send is \<open>formatValue\<close> of the encoded value of the
  transaction sent.
\<close>

theorem formatValue_no_leading_zeros:
  "formatValue ''0x00'' = Some ''0x0''
   \<and> formatValue ''0x0000'' = Some ''0x0''
   \<and> formatValue ''0x00a0'' = Some ''0xa0''
   \<and> (ds \<noteq> [] \<and> list_all isHexDigit ds \<longrightarrow>
        formatValue (''0x'' @ ds) = Some (''0x'' @ canonical ds)
        \<and> no_leading_zero (canonical ds)
        \<and> hex_val (canonical ds) = hex_val ds)
   \<and> (ds \<noteq> [] \<and> list_all isDecDigit ds \<longrightarrow>
        formatValue ds = Some (''0x'' @ toString16 (dec_val ds))
        \<and> no_leading_zero (toString16 (dec_val ds))
        \<and> hex_val (toString16 (dec_val ds)) = dec_val ds)
   \<and> (fst (reforkAndRerun api es c allTransactions newTransactions p) = None \<longrightarrow>
        map send_values
          (filter is_send (fst (snd (reforkAndRerun api es c allTransactions newTransactions p))))
        = map (\<lambda>t. [formatValue (mt_value (es (input t)))]) newTransactions)"
proof -
  have e1: "formatValue ''0x00'' = Some ''0x0''"
    using formatValue_hex [of "''00''"] by (simp add: isHexDigit_def canonical_def)
  have e2: "formatValue ''0x0000'' = Some ''0x0''"
    using formatValue_hex [of "''0000''"] by (simp add: isHexDigit_def canonical_def)
  have e3: "formatValue ''0x00a0'' = Some ''0xa0''"
    using formatValue_hex [of "''00a0''"] by (simp add: isHexDigit_def canonical_def)
  have nz: "no_leading_zero (toString16 n)" for n
  proof (cases "n = 0")
    case True
    then show ?thesis by (simp add: toString16.simps [of 0] no_leading_zero_def)
  next
    case False
    then show ?thesis using toString16_props [of n] by (simp add: no_leading_zero_def)
  qed
  have hv: "hex_val (toString16 n) = n" for n
    using toString16_props [of n] by simp
  have hexpart: "formatValue (''0x'' @ ds) = Some (''0x'' @ canonical ds)
                 \<and> no_leading_zero (canonical ds) \<and> hex_val (canonical ds) = hex_val ds"
    if "ds \<noteq> [] \<and> list_all isHexDigit ds"
    using that formatValue_hex [of ds] no_leading_zero_canonical [of ds]
      hex_val_canonical [of ds] by (intro conjI) (elim conjE, assumption+)
  have decpart: "formatValue ds = Some (''0x'' @ toString16 (dec_val ds))
                 \<and> no_leading_zero (toString16 (dec_val ds))
                 \<and> hex_val (toString16 (dec_val ds)) = dec_val ds"
    if "ds \<noteq> [] \<and> list_all isDecDigit ds"
    using that formatValue_dec [of ds] nz [of "dec_val ds"] hv [of "dec_val ds"]
    by (intro conjI) (elim conjE, assumption+)
  have sends: "map send_values
          (filter is_send (fst (snd (reforkAndRerun api es c allTransactions newTransactions p))))
        = map (\<lambda>t. [formatValue (mt_value (es (input t)))]) newTransactions"
    if n: "fst (reforkAndRerun api es c allTransactions newTransactions p) = None"
  proof -
    from reforkAndRerun_effects [OF n]
    have tr: "fst (snd (reforkAndRerun api es c allTransactions newTransactions p))
              = Dispatch_REMOVE_TRANSACTION (input_id (input (hd allTransactions)))
                # Call_refork # Awaited # sends_trace es c newTransactions"
      by simp
    have fs: "filter is_send
                (fst (snd (reforkAndRerun api es c allTransactions newTransactions p)))
              = map (Call_request ''eth_sendTransaction'') (sends_of es c newTransactions)"
      unfolding tr by (simp add: filter_sends_trace is_send_def)
    show ?thesis
      unfolding fs by (rule send_values_sends [OF reforkAndRerun_values [OF n]])
  qed
  show ?thesis
    apply (rule conjI [OF e1])
    apply (rule conjI [OF e2])
    apply (rule conjI [OF e3])
    apply (rule conjI)
     apply (rule impI)
     apply (erule hexpart)
    apply (rule conjI)
     apply (rule impI)
     apply (erule decpart)
    apply (rule impI)
    apply (erule sends)
    done
qed

theorem formatValue_no_leading_zeros_witness:
  "formatValue ''0x0123'' = Some ''0x123'' \<and> formatValue ''0123'' = Some ''0x7b''
   \<and> map send_values
        (filter is_send (fst (snd (reforkAndRerun api0 encodeSingle0 connection0
           [tx ''a'', tx ''b'', tx ''c''] [tx ''b'', tx ''c''] 7))))
     = [[Some ''0x0''], [Some ''0x0'']]"
proof -
  have d: "dec_val ''0123'' = 123"
    by (simp add: dec_val_def digit_val_def)
  have t: "toString16 123 = ''7b''"
    by (simp add: toString16.simps [of 123] toString16.simps [of 7])
  have n: "fst (reforkAndRerun api0 encodeSingle0 connection0 [tx ''a'', tx ''b'', tx ''c'']
                  [tx ''b'', tx ''c''] 7) = None"
    by (simp add: rerun_three)
  have v: "formatValue (mt_value (encodeSingle0 (input (tx i)))) = Some ''0x0''" for i
    by (simp add: encodeSingle0_def tx_def value_0x00)
  note f = formatValue_no_leading_zeros
      [of "''0123''" api0 encodeSingle0 connection0 "[tx ''a'', tx ''b'', tx ''c'']"
          "[tx ''b'', tx ''c'']" 7]
  from f have h: "formatValue ''0x0123'' = Some ''0x123''"
    by (simp add: isHexDigit_def canonical_def)
  from f have dd: "formatValue ''0123'' = Some ''0x7b''"
    by (simp add: isDecDigit_def d t)
  from f have imp: "fst (reforkAndRerun api0 encodeSingle0 connection0
           [tx ''a'', tx ''b'', tx ''c''] [tx ''b'', tx ''c''] 7) = None \<longrightarrow>
     map send_values
        (filter is_send (fst (snd (reforkAndRerun api0 encodeSingle0 connection0
           [tx ''a'', tx ''b'', tx ''c''] [tx ''b'', tx ''c''] 7))))
     = map (\<lambda>t. [formatValue (mt_value (encodeSingle0 (input t)))]) [tx ''b'', tx ''c'']"
    by (elim conjE)
  note s = imp [THEN mp, OF n]
  have s2: "map (\<lambda>t. [formatValue (mt_value (encodeSingle0 (input t)))]) [tx ''b'', tx ''c'']
            = [[Some ''0x0''], [Some ''0x0'']]"
    by (simp add: v)
  from h dd s [unfolded s2] show ?thesis by (intro conjI)
qed


text \<open>
  The claim C8 speaks of the final batch call and of every numeric value. The final
  call is made by \<open>submitTransactions\<close>, and the call data is handed out by
  \<open>copyTransactionData\<close>; both pass the encoded value on as it is, so a value \<open>0x00\<close>
  reaches the wrapping provider with its leading zero. And a negative value keeps its
  leading zero in \<open>formatValue\<close>, where only a leading \<open>0x0\<close> is rewritten.
\<close>

theorem final_call_not_normalised:
  "submitTransactions encodeSingle0 encodeMulti0 wrappingProvider0 [tx ''a'']
     = (Inr ''0xbatch'',
        [WrappingProvider_request ''eth_sendTransaction''
           [\<lparr>mt_to = ''0xdapp'', mt_value = ''0x00'', mt_data = ''a''\<rparr>],
         Dispatch_SUBMIT_TRANSACTIONS ''0xbatch''])
   \<and> copyTransactionData encodeSingle0 encodeMulti0 (\<lambda>batch connection. batch) connection0
       [tx ''a'']
     = \<lparr>mt_to = ''0xdapp'', mt_value = ''0x00'', mt_data = ''a''\<rparr>
   \<and> \<not> no_leading_zero ''00''
   \<and> formatValue ''0x00'' = Some ''0x0''
   \<and> formatValue ''-0x01'' = Some ''-0x01''
   \<and> \<not> no_leading_zero ''01''"
proof -
  have neg: "formatValue ''-0x01'' = Some ''-0x01''"
    by (simp add: formatValue_def BigNumber_from_def isHexLiteral_def unsigned_part_def
        isHexDigit_def toHex_def toHex_unsigned_def isZero_def hex_val_def digit_val_def
        toHexString_def replace_leading_zeros_def)
  show ?thesis
    using neg value_0x00
    by (simp add: submitTransactions_def copyTransactionData_def wrappingProvider0_def
        encodeSingle0_def tx_def no_leading_zero_def Let_def)
qed


subsection \<open>The migration chain\<close>

lemma addModuleType_idem: "addModuleType (addModuleType c) = addModuleType c"
  by (simp add: addModuleType_def js_or_def truthy_string_def KnownContracts_ROLES_def)

lemma addModuleType_truthy:
  "truthy_string (moduleType c) \<Longrightarrow> addModuleType c = c"
  by (simp add: addModuleType_def js_or_def)

lemma migrateConnections_map: "migrateConnections cs = map addModuleType cs"
  by (simp add: migrateConnections_def CONNECTION_STATE_MIGRATIONS_def)

text \<open>
  Claim C9. The migration chain is applied in registration order (the chain is the
  left fold of \<open>map\<close> over the registered list), migrating twice gives the same list
  as migrating once, a connection whose \<open>moduleType\<close> is already set is left as it is,
  and in every case the migration touches no field but \<open>moduleType\<close>, which is set
  afterwards.
\<close>

theorem migrateConnections_idempotent:
  "migrateConnections cs
     = foldl (\<lambda>acc m. map m acc) cs CONNECTION_STATE_MIGRATIONS
   \<and> migrateConnections (migrateConnections cs) = migrateConnections cs
   \<and> length (migrateConnections cs) = length cs
   \<and> map (\<lambda>c. if truthy_string (moduleType c) then c
               else c\<lparr>moduleType := Some KnownContracts_ROLES\<rparr>) cs
       = migrateConnections cs
   \<and> map (\<lambda>c. c\<lparr>moduleType := None\<rparr>) (migrateConnections cs)
       = map (\<lambda>c. c\<lparr>moduleType := None\<rparr>) cs
   \<and> list_all (\<lambda>c. truthy_string (moduleType c)) (migrateConnections cs)"
proof -
  have idem: "migrateConnections (migrateConnections cs) = migrateConnections cs"
    by (simp add: migrateConnections_map addModuleType_idem)
  have shape: "map (\<lambda>c. if truthy_string (moduleType c) then c
                   else c\<lparr>moduleType := Some KnownContracts_ROLES\<rparr>) cs
               = migrateConnections cs"
    unfolding migrateConnections_map
    by (rule map_cong [OF refl]) (simp add: addModuleType_def js_or_def)
  have others: "map (\<lambda>c. c\<lparr>moduleType := None\<rparr>) (migrateConnections cs)
                = map (\<lambda>c. c\<lparr>moduleType := None\<rparr>) cs"
    by (simp add: migrateConnections_map addModuleType_def comp_def)
  have set_after: "list_all (\<lambda>c. truthy_string (moduleType c)) (migrateConnections cs)"
    by (simp add: migrateConnections_map list_all_iff addModuleType_def js_or_def
        truthy_string_def KnownContracts_ROLES_def)
  have order: "migrateConnections cs
                = foldl (\<lambda>acc m. map m acc) cs CONNECTION_STATE_MIGRATIONS"
    by (simp add: migrateConnections_def)
  have len: "length (migrateConnections cs) = length cs"
    by (simp add: migrateConnections_map)
  from order idem len shape others set_after show ?thesis
    by (intro conjI)
qed


end
